theory Spec2Isabelle
  imports Main "HOL-Library.Word"
begin

section \<open>The hooks run state of the gateway (gateway/hooks/runstate.go)\<close>

text \<open>
  The file under verification is the per-invocation interpreter of a hook's action tree.
  Every function of \<^verbatim>\<open>runstate.go\<close> is translated below under its own name. The
  collaborators the file calls but does not define (the hooks context with its run lock,
  the counters and barriers, the value comparator, the JSON decoder, the marshalling of a
  status detail) are parameters, collected in the record \<open>collaborators\<close>: the theorems
  hold for every implementation of them.

  A Go result pair \<^verbatim>\<open>(interface{}, error)\<close> is a pair of options: \<open>None\<close> is
  \<^verbatim>\<open>nil\<close>. Mutation of the session is explicit state passing. Next to the
  session the state carries a trace: each call that leaves the file and touches the
  session, the downstream handler or the JSON decoder appends one event, so that
  "is called exactly once" and "is not called" are statements about the trace.
  Calls to \<^verbatim>\<open>log.Printf\<close> are left out. The model describes invocations in which
  every blocking call (acquiring the run lock, waiting on a barrier) returns.
\<close>

subsection \<open>Messages of the hook language\<close>

text \<open>
  The generated protobuf types are not part of the sources; their shape is read off the
  field accesses and type switches of \<^verbatim>\<open>runstate.go\<close>. A oneof that is unset or of
  an unknown kind is the constructor \<open>_unset\<close>; an enum value outside the five named
  operators is \<open>ComparisonOperator_other\<close>.
\<close>

datatype ComparisonOperator =
    EQUAL
  | GREATER_THAN
  | GREATER_THAN_OR_EQUAL
  | LESS_THAN
  | LESS_THAN_OR_EQUAL
  | ComparisonOperator_other int

datatype ValueRef =
    ValueRef_CounterValue string
  | ValueRef_RequestField string
  | ValueRef_JsonValue string
  | ValueRef_unset

record HookCondition =
  Left :: ValueRef
  Op :: ComparisonOperator
  Right :: ValueRef

record 'd HookAction_ReturnError =
  Code :: "32 word"
  Message :: string
  Details :: "'d list"

datatype ('r, 'd) HookAction =
    HookAction_If "HookCondition list" "('r, 'd) HookAction list" "('r, 'd) HookAction list"
  | HookAction_Counter string "64 word"
  | HookAction_WaitOnBarrier string
  | HookAction_SignalBarrier string bool
  | HookAction_SetResponse 'r
  | HookAction_ReturnError "'d HookAction_ReturnError"
  | HookAction_unset

record ('r, 'd) Hook =
  Actions :: "('r, 'd) HookAction list"

subsection \<open>Statuses and errors\<close>

text \<open>
  The gRPC status package is a library outside the repository. It is modelled after its
  documented contract: a \<^verbatim>\<open>*Status\<close> may be nil and then has code OK (0);
  \<^verbatim>\<open>WithDetails\<close> returns nil and an error when the status has code OK or when
  a detail cannot be marshalled, and otherwise a copy of the status with the marshalled
  detail appended; \<^verbatim>\<open>Err\<close> returns nil when the code is OK.
\<close>

record Any =
  TypeUrl :: string
  Value :: string

record Status =
  st_code :: "32 word"
  st_message :: string
  st_details :: "Any list"

datatype error =
    ErrorsNew string
  | StatusError Status
  | OtherError string

type_synonym 'r result = "'r option \<times> error option"

definition status_New :: "32 word \<Rightarrow> string \<Rightarrow> Status option" where
  "status_New c msg = Some \<lparr>st_code = c, st_message = msg, st_details = []\<rparr>"

definition Status_Code :: "Status option \<Rightarrow> 32 word" where
  "Status_Code s = (case s of None \<Rightarrow> 0 | Some p \<Rightarrow> st_code p)"

definition Status_WithDetails ::
  "('d \<Rightarrow> error + Any) \<Rightarrow> Status option \<Rightarrow> 'd \<Rightarrow> Status option \<times> error option" where
  "Status_WithDetails marshal s detail =
     (case s of
        None \<Rightarrow> (None, Some (OtherError ''no error details for status with code OK''))
      | Some p \<Rightarrow>
          if st_code p = 0
          then (None, Some (OtherError ''no error details for status with code OK''))
          else (case marshal detail of
                  Inl err \<Rightarrow> (None, Some err)
                | Inr a \<Rightarrow> (Some (p\<lparr>st_details := st_details p @ [a]\<rparr>), None)))"

definition Status_Err :: "Status option \<Rightarrow> error option" where
  "Status_Err s =
     (case s of
        None \<Rightarrow> None
      | Some p \<Rightarrow> if st_code p = 0 then None else Some (StatusError p))"

subsection \<open>The collaborators and the state\<close>

text \<open>
  \<open>'h\<close> is the state of the session and of everything around it (the hooks context, its
  counters and barriers, the other invocations), \<open>'c\<close> the context a call carries,
  \<open>'v\<close> the dynamic values conditions compare (an \<^verbatim>\<open>interface{}\<close> is a
  \<open>'v option\<close>, the JSON text \<^verbatim>\<open>null\<close> decoding to nil), \<open>'d\<close> a detail message.
  Counters and barriers are addressed by their identifier, the key under which the hooks
  context keeps them. The receiver \<^verbatim>\<open>s\<close> is passed where one of its fields
  \<open>ID\<close>, \<open>Handler\<close> or \<open>Hook\<close> is read; its hooks context is the session state.
\<close>

record ('h, 'c, 'v, 'd) collaborators =
  acquireRunLock :: "'c \<Rightarrow> 'h \<Rightarrow> error option \<times> 'h"
  releaseRunLock :: "'h \<Rightarrow> 'h"
  GetCounter :: "string \<Rightarrow> 'h \<Rightarrow> 'h"
  getCounterLocked :: "string \<Rightarrow> 'h \<Rightarrow> 'h"
  Counter_Get :: "string \<Rightarrow> 'h \<Rightarrow> 'v"
  Counter_Update :: "string \<Rightarrow> 64 word \<Rightarrow> 'h \<Rightarrow> 'h"
  GetBarrier :: "string \<Rightarrow> 'h \<Rightarrow> 'h"
  getBarrierLocked :: "string \<Rightarrow> 'h \<Rightarrow> 'h"
  Barrier_Wait :: "string \<Rightarrow> 'c \<Rightarrow> string \<Rightarrow> 'h \<Rightarrow> error option \<times> 'h"
  Barrier_SignalAll :: "string \<Rightarrow> 'h \<Rightarrow> 'h"
  Barrier_TrySignalAny :: "string \<Rightarrow> 'h \<Rightarrow> 'h"
  json_Unmarshal :: "string \<Rightarrow> error + 'v option"
  govalcmp_Compare :: "'v option \<Rightarrow> 'v option \<Rightarrow> error + int"
  anypb_New :: "'d \<Rightarrow> error + Any"

datatype event =
    Ev_acquireRunLock "error option"
  | Ev_releaseRunLock
  | Ev_Handler
  | Ev_GetCounter string
  | Ev_getCounterLocked string
  | Ev_Counter_Get string
  | Ev_Counter_Update string "64 word"
  | Ev_GetBarrier string
  | Ev_getBarrierLocked string
  | Ev_Barrier_Wait string string "error option"
  | Ev_Barrier_SignalAll string
  | Ev_Barrier_TrySignalAny string
  | Ev_json_Unmarshal string

record 'h state =
  world :: 'h
  trace :: "event list"

record ('h, 'c, 'q, 'r, 'd) runState =
  ID :: string
  Handler :: "'c \<Rightarrow> 'q \<Rightarrow> 'h \<Rightarrow> 'r result \<times> 'h"
  Hook :: "('r, 'd) Hook"

text \<open>A call of a collaborator: its effect on the session, and one event.\<close>

definition effect :: "event \<Rightarrow> ('h \<Rightarrow> 'h) \<Rightarrow> 'h state \<Rightarrow> 'h state" where
  "effect e f st = \<lparr>world = f (world st), trace = trace st @ [e]\<rparr>"

definition call_acquireRunLock ::
  "('h, 'c, 'v, 'd) collaborators \<Rightarrow> 'c \<Rightarrow> 'h state \<Rightarrow> error option \<times> 'h state" where
  "call_acquireRunLock env ctx st =
     (case acquireRunLock env ctx (world st) of
        (err, h) \<Rightarrow> (err, \<lparr>world = h, trace = trace st @ [Ev_acquireRunLock err]\<rparr>))"

definition call_releaseRunLock ::
  "('h, 'c, 'v, 'd) collaborators \<Rightarrow> 'h state \<Rightarrow> 'h state" where
  "call_releaseRunLock env st = effect Ev_releaseRunLock (releaseRunLock env) st"

definition call_Barrier_Wait ::
  "('h, 'c, 'v, 'd) collaborators \<Rightarrow> string \<Rightarrow> 'c \<Rightarrow> string \<Rightarrow> 'h state
     \<Rightarrow> error option \<times> 'h state" where
  "call_Barrier_Wait env barrier ctx runID st =
     (case Barrier_Wait env barrier ctx runID (world st) of
        (err, h) \<Rightarrow> (err, \<lparr>world = h, trace = trace st @ [Ev_Barrier_Wait barrier runID err]\<rparr>))"

definition call_Handler ::
  "('h, 'c, 'q, 'r, 'd) runState \<Rightarrow> 'c \<Rightarrow> 'q \<Rightarrow> 'h state \<Rightarrow> 'r result \<times> 'h state" where
  "call_Handler s ctx req st =
     (case Handler s ctx req (world st) of
        (res, h) \<Rightarrow> (res, \<lparr>world = h, trace = trace st @ [Ev_Handler]\<rparr>))"

definition call_json_Unmarshal ::
  "('h, 'c, 'v, 'd) collaborators \<Rightarrow> string \<Rightarrow> 'h state
     \<Rightarrow> (error + 'v option) \<times> 'h state" where
  "call_json_Unmarshal env text st =
     (json_Unmarshal env text, effect (Ev_json_Unmarshal text) (\<lambda>h. h) st)"

subsection \<open>Conditions\<close>

definition compare ::
  "('h, 'c, 'v, 'd) collaborators \<Rightarrow> 'v option \<Rightarrow> ComparisonOperator \<Rightarrow> 'v option
     \<Rightarrow> bool \<times> error option" where
  "compare env left op right =
     (case govalcmp_Compare env left right of
        Inl err \<Rightarrow> (False, Some err)
      | Inr delta \<Rightarrow>
          (case op of
             EQUAL \<Rightarrow> (delta = 0, None)
           | GREATER_THAN \<Rightarrow> (delta > 0, None)
           | GREATER_THAN_OR_EQUAL \<Rightarrow> (delta \<ge> 0, None)
           | LESS_THAN \<Rightarrow> (delta < 0, None)
           | LESS_THAN_OR_EQUAL \<Rightarrow> (delta \<le> 0, None)
           | ComparisonOperator_other _ \<Rightarrow>
               (False, Some (ErrorsNew ''invalid comparison operator''))))"

definition resolveValueRef_CounterValue ::
  "('h, 'c, 'v, 'd) collaborators \<Rightarrow> 'c \<Rightarrow> 'q \<Rightarrow> string \<Rightarrow> 'h state
     \<Rightarrow> ('v option \<times> error option) \<times> 'h state" where
  "resolveValueRef_CounterValue env ctx req ref st =
     (let st1 = effect (Ev_GetCounter ref) (GetCounter env ref) st;
          v = Counter_Get env ref (world st1);
          st2 = effect (Ev_Counter_Get ref) (\<lambda>h. h) st1
      in ((Some v, None), st2))"

definition resolveValueRef_RequestField ::
  "('h, 'c, 'v, 'd) collaborators \<Rightarrow> 'c \<Rightarrow> 'q \<Rightarrow> string \<Rightarrow> 'h state
     \<Rightarrow> ('v option \<times> error option) \<times> 'h state" where
  "resolveValueRef_RequestField env ctx req ref st =
     ((None, Some (ErrorsNew ''unimplemented request field query'')), st)"

definition resolveValueRef_JsonValue ::
  "('h, 'c, 'v, 'd) collaborators \<Rightarrow> 'c \<Rightarrow> 'q \<Rightarrow> string \<Rightarrow> 'h state
     \<Rightarrow> ('v option \<times> error option) \<times> 'h state" where
  "resolveValueRef_JsonValue env ctx req ref st =
     (case call_json_Unmarshal env ref st of
        (Inl err, st1) \<Rightarrow> ((None, Some err), st1)
      | (Inr val, st1) \<Rightarrow> ((val, None), st1))"

definition resolveValueRef ::
  "('h, 'c, 'v, 'd) collaborators \<Rightarrow> 'c \<Rightarrow> 'q \<Rightarrow> ValueRef \<Rightarrow> 'h state
     \<Rightarrow> ('v option \<times> error option) \<times> 'h state" where
  "resolveValueRef env ctx req ref st =
     (case ref of
        ValueRef_CounterValue r \<Rightarrow> resolveValueRef_CounterValue env ctx req r st
      | ValueRef_RequestField r \<Rightarrow> resolveValueRef_RequestField env ctx req r st
      | ValueRef_JsonValue r \<Rightarrow> resolveValueRef_JsonValue env ctx req r st
      | ValueRef_unset \<Rightarrow> ((None, Some (ErrorsNew ''invalid value ref'')), st))"

definition checkCondition ::
  "('h, 'c, 'v, 'd) collaborators \<Rightarrow> 'c \<Rightarrow> 'q \<Rightarrow> HookCondition \<Rightarrow> 'h state
     \<Rightarrow> (bool \<times> error option) \<times> 'h state" where
  "checkCondition env ctx req cond st =
     (case resolveValueRef env ctx req (Left cond) st of
        ((leftVal, Some err), st1) \<Rightarrow> ((False, Some err), st1)
      | ((leftVal, None), st1) \<Rightarrow>
          (case resolveValueRef env ctx req (Right cond) st1 of
             ((rightVal, Some err), st2) \<Rightarrow> ((False, Some err), st2)
           | ((rightVal, None), st2) \<Rightarrow>
               (case compare env leftVal (Op cond) rightVal of
                  (ok, Some err) \<Rightarrow> ((False, Some err), st2)
                | (ok, None) \<Rightarrow> ((ok, None), st2))))"

fun checkConditions ::
  "('h, 'c, 'v, 'd) collaborators \<Rightarrow> 'c \<Rightarrow> 'q \<Rightarrow> HookCondition list \<Rightarrow> 'h state
     \<Rightarrow> (bool \<times> error option) \<times> 'h state" where
  "checkConditions env ctx req [] st = ((True, None), st)"
| "checkConditions env ctx req (cond # conds) st =
     (case checkCondition env ctx req cond st of
        ((ok, Some err), st1) \<Rightarrow> ((False, Some err), st1)
      | ((ok, None), st1) \<Rightarrow>
          if \<not> ok then ((False, None), st1)
          else checkConditions env ctx req conds st1)"

subsection \<open>Actions\<close>

definition runAction_Counter ::
  "('h, 'c, 'v, 'd) collaborators \<Rightarrow> 'c \<Rightarrow> 'q \<Rightarrow> string \<Rightarrow> 64 word \<Rightarrow> 'h state
     \<Rightarrow> 'r result \<times> 'h state" where
  "runAction_Counter env ctx req counterId delta st =
     (let st1 = effect (Ev_getCounterLocked counterId) (getCounterLocked env counterId) st;
          st2 = effect (Ev_Counter_Update counterId delta) (Counter_Update env counterId delta) st1
      in ((None, None), st2))"

definition runAction_WaitOnBarrier ::
  "('h, 'c, 'v, 'd) collaborators \<Rightarrow> ('h, 'c, 'q, 'r, 'd) runState \<Rightarrow> 'c \<Rightarrow> 'q \<Rightarrow> string
     \<Rightarrow> 'h state \<Rightarrow> 'r result \<times> 'h state" where
  "runAction_WaitOnBarrier env s ctx req barrierId st =
     (let st1 = effect (Ev_getBarrierLocked barrierId) (getBarrierLocked env barrierId) st;
          st2 = call_releaseRunLock env st1
      in case call_Barrier_Wait env barrierId ctx (ID s) st2 of
           (waitErr, st3) \<Rightarrow>
             (case call_acquireRunLock env ctx st3 of
                (Some err, st4) \<Rightarrow> ((None, Some err), st4)
              | (None, st4) \<Rightarrow> ((None, None), st4)))"

definition runAction_SignalBarrier ::
  "('h, 'c, 'v, 'd) collaborators \<Rightarrow> 'c \<Rightarrow> 'q \<Rightarrow> string \<Rightarrow> bool \<Rightarrow> 'h state
     \<Rightarrow> 'r result \<times> 'h state" where
  "runAction_SignalBarrier env ctx req barrierId signalAll st =
     (let st1 = effect (Ev_GetBarrier barrierId) (GetBarrier env barrierId) st;
          st2 = (if signalAll
                 then effect (Ev_Barrier_SignalAll barrierId) (Barrier_SignalAll env barrierId) st1
                 else effect (Ev_Barrier_TrySignalAny barrierId)
                        (Barrier_TrySignalAny env barrierId) st1)
      in ((None, None), st2))"

text \<open>
  \<^verbatim>\<open>SetResponse\<close> returns the field \<^verbatim>\<open>action.Value\<close>, a pointer, as an
  \<^verbatim>\<open>interface{}\<close>: the interface value is never nil, whatever the pointer.
\<close>

definition runAction_SetResponse ::
  "'c \<Rightarrow> 'q \<Rightarrow> 'r \<Rightarrow> 'h state \<Rightarrow> 'r result \<times> 'h state" where
  "runAction_SetResponse ctx req v st = ((Some v, None), st)"

definition runAction_ReturnError ::
  "('h, 'c, 'v, 'd) collaborators \<Rightarrow> 'c \<Rightarrow> 'q \<Rightarrow> 'd HookAction_ReturnError \<Rightarrow> 'h state
     \<Rightarrow> 'r result \<times> 'h state" where
  "runAction_ReturnError env ctx req action st =
     (let st0 = status_New (Code action) (Message action);
          stN = foldl (\<lambda>st detail. fst (Status_WithDetails (anypb_New env) st detail))
                  st0 (Details action)
      in ((None, Status_Err stN), st))"

text \<open>
  \<open>runActions_loop\<close> is the \<^verbatim>\<open>for\<close> loop of \<^verbatim>\<open>runActions\<close>; its
  first list argument is the loop variable \<^verbatim>\<open>respOut\<close>.
\<close>

function runAction ::
  "('h, 'c, 'v, 'd) collaborators \<Rightarrow> ('h, 'c, 'q, 'r, 'd) runState \<Rightarrow> 'c \<Rightarrow> 'q
     \<Rightarrow> ('r, 'd) HookAction \<Rightarrow> 'h state \<Rightarrow> 'r result \<times> 'h state"
and runAction_If ::
  "('h, 'c, 'v, 'd) collaborators \<Rightarrow> ('h, 'c, 'q, 'r, 'd) runState \<Rightarrow> 'c \<Rightarrow> 'q
     \<Rightarrow> HookCondition list \<Rightarrow> ('r, 'd) HookAction list \<Rightarrow> ('r, 'd) HookAction list
     \<Rightarrow> 'h state \<Rightarrow> 'r result \<times> 'h state"
and runActions_loop ::
  "('h, 'c, 'v, 'd) collaborators \<Rightarrow> ('h, 'c, 'q, 'r, 'd) runState \<Rightarrow> 'c \<Rightarrow> 'q
     \<Rightarrow> 'r option \<Rightarrow> ('r, 'd) HookAction list \<Rightarrow> 'h state \<Rightarrow> 'r result \<times> 'h state"
where
  "runAction env s ctx req (HookAction_If cond match noMatch) st =
     runAction_If env s ctx req cond match noMatch st"
| "runAction env s ctx req (HookAction_Counter counterId delta) st =
     runAction_Counter env ctx req counterId delta st"
| "runAction env s ctx req (HookAction_WaitOnBarrier barrierId) st =
     runAction_WaitOnBarrier env s ctx req barrierId st"
| "runAction env s ctx req (HookAction_SignalBarrier barrierId signalAll) st =
     runAction_SignalBarrier env ctx req barrierId signalAll st"
| "runAction env s ctx req (HookAction_SetResponse v) st =
     runAction_SetResponse ctx req v st"
| "runAction env s ctx req (HookAction_ReturnError action) st =
     runAction_ReturnError env ctx req action st"
| "runAction env s ctx req HookAction_unset st =
     ((None, Some (ErrorsNew ''invalid hook action type'')), st)"
| "runAction_If env s ctx req cond match noMatch st =
     (case checkConditions env ctx req cond st of
        ((ok, Some err), st1) \<Rightarrow> ((None, Some err), st1)
      | ((ok, None), st1) \<Rightarrow>
          if ok then runActions_loop env s ctx req None match st1
          else runActions_loop env s ctx req None noMatch st1)"
| "runActions_loop env s ctx req respOut [] st = ((respOut, None), st)"
| "runActions_loop env s ctx req respOut (action # actions) st =
     (case runAction env s ctx req action st of
        ((resp, Some err), st1) \<Rightarrow> ((None, Some err), st1)
      | ((resp, None), st1) \<Rightarrow>
          runActions_loop env s ctx req (if resp \<noteq> None then resp else respOut) actions st1)"
  by pat_completeness auto
termination
  by (relation "measure (\<lambda>x. case x of
         Inl (env, s, ctx, req, action, st) \<Rightarrow> 2 * size action
       | Inr (Inl (env, s, ctx, req, cond, match, noMatch, st)) \<Rightarrow>
           2 * (size_list size match + size_list size noMatch) + 1
       | Inr (Inr (env, s, ctx, req, respOut, actions, st)) \<Rightarrow> 2 * size_list size actions)")
     auto

definition runActions ::
  "('h, 'c, 'v, 'd) collaborators \<Rightarrow> ('h, 'c, 'q, 'r, 'd) runState \<Rightarrow> 'c \<Rightarrow> 'q
     \<Rightarrow> ('r, 'd) HookAction list \<Rightarrow> 'h state \<Rightarrow> 'r result \<times> 'h state" where
  "runActions env s ctx req actions st = runActions_loop env s ctx req None actions st"

definition Run ::
  "('h, 'c, 'v, 'd) collaborators \<Rightarrow> ('h, 'c, 'q, 'r, 'd) runState \<Rightarrow> 'c \<Rightarrow> 'q \<Rightarrow> 'h state
     \<Rightarrow> 'r result \<times> 'h state" where
  "Run env s ctx req st =
     (case call_acquireRunLock env ctx st of
        (Some err, st1) \<Rightarrow> ((None, Some err), st1)
      | (None, st1) \<Rightarrow>
          (case runActions env s ctx req (Actions (Hook s)) st1 of
             ((resp, err), st2) \<Rightarrow>
               (let st3 = call_releaseRunLock env st2
                in if resp = None \<and> err = None then call_Handler s ctx req st3
                   else ((resp, err), st3))))"

subsection \<open>Reading the trace\<close>

definition handlerCalls :: "'h state \<Rightarrow> nat" where
  "handlerCalls st = count_list (trace st) Ev_Handler"


text \<open>
  The executions of the actions of a list, one after the other, each from the state the
  one before it left, up to and including the first that returns an error. Every entry is
  the result pair of one action and the state after it.
\<close>

fun outcomes ::
  "('h, 'c, 'v, 'd) collaborators \<Rightarrow> ('h, 'c, 'q, 'r, 'd) runState \<Rightarrow> 'c \<Rightarrow> 'q
     \<Rightarrow> ('r, 'd) HookAction list \<Rightarrow> 'h state \<Rightarrow> ('r result \<times> 'h state) list" where
  "outcomes env s ctx req [] st = []"
| "outcomes env s ctx req (action # actions) st =
     (case runAction env s ctx req action st of
        ((resp, Some err), st1) \<Rightarrow> [((resp, Some err), st1)]
      | ((resp, None), st1) \<Rightarrow> ((resp, None), st1) # outcomes env s ctx req actions st1)"

definition last_non_nil :: "'r option list \<Rightarrow> 'r option" where
  "last_non_nil rs = (case filter (\<lambda>r. r \<noteq> None) rs of [] \<Rightarrow> None | f # fs \<Rightarrow> last (f # fs))"

subsection \<open>A session that serves one invocation at a time\<close>

text \<open>
  Modelled from the spec: the hooks context, its counters and barriers, the comparator and
  the contexts are not part of the sources. This instance of the collaborators is the
  session of the spec seen by invocations that run one after the other: a counter is a
  signed 64-bit cell created with value 0 on first reference, \<^verbatim>\<open>Update\<close> adds a
  delta; a barrier is a queue of waiting run ids created empty on first reference,
  \<^verbatim>\<open>SignalAll\<close> empties it and \<^verbatim>\<open>TrySignalAny\<close> removes its head if there
  is one; the run lock is free whenever it is asked for, so acquiring it fails only when
  the context is cancelled (before the call, or while the invocation waited on a
  barrier); a wait on a barrier ends with the waiter removed from the queue, by a signal
  or, for a context that is cancelled meanwhile, with the cancellation error. Values are
  integers: a counter reads as its signed value, the decoder accepts \<^verbatim>\<open>null\<close>
  and unsigned decimal literals, numbers compare by value and null is equal to null
  only. A detail is given by the text of its type URL and cannot be marshalled when that
  text is not valid UTF-8 (here: has a byte above 127).
\<close>

datatype Context = Background | CancelledWhileWaiting | CancelledBefore

record session =
  counters :: "string \<rightharpoonup> 64 word"
  barriers :: "string \<rightharpoonup> string list"
  ctxDone :: bool

definition ctxErr :: error where
  "ctxErr = OtherError ''context canceled''"

definition session_acquireRunLock :: "Context \<Rightarrow> session \<Rightarrow> error option \<times> session" where
  "session_acquireRunLock ctx h =
     (if ctx = CancelledBefore \<or> (ctx = CancelledWhileWaiting \<and> ctxDone h)
      then (Some ctxErr, h) else (None, h))"

definition session_getCounter :: "string \<Rightarrow> session \<Rightarrow> session" where
  "session_getCounter counterId h =
     (case counters h counterId of
        None \<Rightarrow> h\<lparr>counters := (counters h)(counterId \<mapsto> 0)\<rparr>
      | Some _ \<Rightarrow> h)"

definition session_Counter_Get :: "string \<Rightarrow> session \<Rightarrow> 64 word" where
  "session_Counter_Get counterId h = (case counters h counterId of None \<Rightarrow> 0 | Some n \<Rightarrow> n)"

definition session_Counter_Update :: "string \<Rightarrow> 64 word \<Rightarrow> session \<Rightarrow> session" where
  "session_Counter_Update counterId delta h =
     h\<lparr>counters := (counters h)(counterId \<mapsto> session_Counter_Get counterId h + delta)\<rparr>"

definition session_getBarrier :: "string \<Rightarrow> session \<Rightarrow> session" where
  "session_getBarrier barrierId h =
     (case barriers h barrierId of
        None \<Rightarrow> h\<lparr>barriers := (barriers h)(barrierId \<mapsto> [])\<rparr>
      | Some _ \<Rightarrow> h)"

definition session_Barrier_Wait ::
  "string \<Rightarrow> Context \<Rightarrow> string \<Rightarrow> session \<Rightarrow> error option \<times> session" where
  "session_Barrier_Wait barrierId ctx runID h =
     (if ctx = Background then (None, h) else (Some ctxErr, h\<lparr>ctxDone := True\<rparr>))"

definition session_Barrier_SignalAll :: "string \<Rightarrow> session \<Rightarrow> session" where
  "session_Barrier_SignalAll barrierId h = h\<lparr>barriers := (barriers h)(barrierId \<mapsto> [])\<rparr>"

definition session_Barrier_TrySignalAny :: "string \<Rightarrow> session \<Rightarrow> session" where
  "session_Barrier_TrySignalAny barrierId h =
     (case barriers h barrierId of
        Some (w # ws) \<Rightarrow> h\<lparr>barriers := (barriers h)(barrierId \<mapsto> ws)\<rparr>
      | _ \<Rightarrow> h)"

definition decimal_Unmarshal :: "string \<Rightarrow> error + int option" where
  "decimal_Unmarshal text =
     (if text = ''null'' then Inr None
      else if text \<noteq> [] \<and> list_all (\<lambda>c. 48 \<le> (of_char c :: nat) \<and> (of_char c :: nat) \<le> 57) text
      then Inr (Some (foldl (\<lambda>n c. 10 * n + (of_char c - 48)) 0 text))
      else Inl (OtherError ''invalid character''))"

definition numeric_Compare :: "int option \<Rightarrow> int option \<Rightarrow> error + int" where
  "numeric_Compare left right =
     (case (left, right) of
        (Some x, Some y) \<Rightarrow> Inr (if x < y then - 1 else if x = y then 0 else 1)
      | (None, None) \<Rightarrow> Inr 0
      | _ \<Rightarrow> Inl (OtherError ''invalid comparison''))"

definition utf8_anypb_New :: "string \<Rightarrow> error + Any" where
  "utf8_anypb_New typeUrl =
     (if list_all (\<lambda>c. (of_char c :: nat) < 128) typeUrl
      then Inr \<lparr>TypeUrl = ''type.googleapis.com/google.protobuf.Any'', Value = typeUrl\<rparr>
      else Inl (OtherError ''string field contains invalid UTF-8''))"

definition session_env :: "(session, Context, int, string) collaborators" where
  "session_env =
     \<lparr>acquireRunLock = session_acquireRunLock,
      releaseRunLock = (\<lambda>h. h),
      GetCounter = session_getCounter,
      getCounterLocked = session_getCounter,
      Counter_Get = (\<lambda>counterId h. sint (session_Counter_Get counterId h)),
      Counter_Update = session_Counter_Update,
      GetBarrier = session_getBarrier,
      getBarrierLocked = session_getBarrier,
      Barrier_Wait = session_Barrier_Wait,
      Barrier_SignalAll = session_Barrier_SignalAll,
      Barrier_TrySignalAny = session_Barrier_TrySignalAny,
      json_Unmarshal = decimal_Unmarshal,
      govalcmp_Compare = numeric_Compare,
      anypb_New = utf8_anypb_New\<rparr>"

text \<open>A run state whose downstream handler answers with the request it is given.\<close>

definition echo_runState ::
  "('r, string) HookAction list \<Rightarrow> (session, Context, 'r, 'r, string) runState" where
  "echo_runState actions =
     \<lparr>ID = ''run-1'', Handler = (\<lambda>ctx req h. ((Some req, None), h)),
      Hook = \<lparr>Actions = actions\<rparr>\<rparr>"

definition session_init :: "session state" where
  "session_init =
     \<lparr>world = \<lparr>counters = Map.empty, barriers = Map.empty, ctxDone = False\<rparr>, trace = []\<rparr>"


section \<open>Auxiliary facts\<close>

subsection \<open>Calls of the handler\<close>

lemma handlerCalls_effect: "e \<noteq> Ev_Handler \<Longrightarrow> handlerCalls (effect e f st) = handlerCalls st"
  by (simp add: handlerCalls_def effect_def)

lemma handlerCalls_acquire:
  "call_acquireRunLock env ctx st = (r, st') \<Longrightarrow> handlerCalls st' = handlerCalls st"
  by (auto simp: call_acquireRunLock_def handlerCalls_def split: prod.splits)

lemma handlerCalls_release: "handlerCalls (call_releaseRunLock env st) = handlerCalls st"
  by (simp add: call_releaseRunLock_def handlerCalls_effect)

lemma handlerCalls_wait:
  "call_Barrier_Wait env b ctx i st = (r, st') \<Longrightarrow> handlerCalls st' = handlerCalls st"
  by (auto simp: call_Barrier_Wait_def handlerCalls_def split: prod.splits)

lemma handlerCalls_Handler:
  "handlerCalls (snd (call_Handler s ctx req st)) = Suc (handlerCalls st)"
  by (simp add: call_Handler_def handlerCalls_def split: prod.splits)

lemma handlerCalls_resolveValueRef:
  "resolveValueRef env ctx req ref st = (r, st') \<Longrightarrow> handlerCalls st' = handlerCalls st"
  by (auto simp: resolveValueRef_def resolveValueRef_CounterValue_def
      resolveValueRef_RequestField_def resolveValueRef_JsonValue_def call_json_Unmarshal_def
      handlerCalls_effect Let_def split: ValueRef.splits sum.splits)

lemma handlerCalls_checkCondition:
  "checkCondition env ctx req c st = (r, st') \<Longrightarrow> handlerCalls st' = handlerCalls st"
  unfolding checkCondition_def
  by (auto split: prod.splits option.splits dest!: handlerCalls_resolveValueRef)

lemma handlerCalls_checkConditions:
  "checkConditions env ctx req cs st = (r, st') \<Longrightarrow> handlerCalls st' = handlerCalls st"
proof (induction cs arbitrary: st)
  case Nil
  then show ?case by simp
next
  case (Cons c cs)
  then show ?case
    by (auto split: prod.splits option.splits if_splits dest!: handlerCalls_checkCondition)
qed

lemma handlerCalls_actions:
  "\<forall>r st'. runAction env s ctx req a st = (r, st') \<longrightarrow> handlerCalls st' = handlerCalls st"
  "\<forall>r st'. runAction_If env s ctx req c m n st = (r, st') \<longrightarrow> handlerCalls st' = handlerCalls st"
  "\<forall>r st'. runActions_loop env s ctx req acc as st = (r, st') \<longrightarrow> handlerCalls st' = handlerCalls st"
proof (induction env s ctx req a st and env s ctx req c m n st and env s ctx req acc as st
    rule: runAction_runAction_If_runActions_loop.induct)
  case (1 env s ctx req cond match noMatch st)
  then show ?case by simp
next
  case (2 env s ctx req counterId delta st)
  then show ?case by (simp add: runAction_Counter_def handlerCalls_effect)
next
  case (3 env s ctx req barrierId st)
  then show ?case
    by (auto simp: runAction_WaitOnBarrier_def Let_def handlerCalls_effect handlerCalls_release
        split: prod.splits option.splits dest!: handlerCalls_wait handlerCalls_acquire)
next
  case (4 env s ctx req barrierId signalAll st)
  then show ?case by (auto simp: runAction_SignalBarrier_def Let_def handlerCalls_effect)
next
  case (5 env s ctx req v st)
  then show ?case by (simp add: runAction_SetResponse_def)
next
  case (6 env s ctx req action st)
  then show ?case by (simp add: runAction_ReturnError_def)
next
  case (7 env s ctx req st)
  then show ?case by simp
next
  case (8 env s ctx req cond match noMatch st)
  then show ?case
    by (auto split: prod.splits option.splits if_splits dest!: handlerCalls_checkConditions)
next
  case (9 env s ctx req respOut st)
  then show ?case by simp
next
  case (10 env s ctx req respOut action actions st)
  then show ?case
    by (auto split: prod.splits option.splits)
qed

lemma handlerCalls_runActions:
  "runActions env s ctx req as st = (r, st') \<Longrightarrow> handlerCalls st' = handlerCalls st"
  using handlerCalls_actions(3) [of env s ctx req None as st] by (cases r) (simp add: runActions_def)

subsection \<open>Run, step by step\<close>

lemma Run_not_acquired:
  "call_acquireRunLock env ctx st = (Some err, st1) \<Longrightarrow>
   Run env s ctx req st = ((None, Some err), st1)"
  by (simp add: Run_def)

lemma Run_acquired:
  "call_acquireRunLock env ctx st = (None, st1) \<Longrightarrow>
   runActions env s ctx req (Actions (Hook s)) st1 = ((resp, err), st2) \<Longrightarrow>
   Run env s ctx req st =
     (if resp = None \<and> err = None then call_Handler s ctx req (call_releaseRunLock env st2)
      else ((resp, err), call_releaseRunLock env st2))"
  by (simp add: Run_def Let_def)

subsection \<open>Lists of actions and of conditions\<close>

lemma last_non_nil_Nil: "last_non_nil [] = None"
  by (simp add: last_non_nil_def)

lemma last_non_nil_Cons:
  "last_non_nil (r # rs) = (case last_non_nil rs of None \<Rightarrow> r | Some v \<Rightarrow> Some v)"
proof (cases "filter (\<lambda>r. r \<noteq> None) rs")
  case Nil
  then show ?thesis by (cases r) (simp_all add: last_non_nil_def)
next
  case (Cons f fs)
  have "last (f # fs) \<in> set (filter (\<lambda>r. r \<noteq> None) rs)"
    unfolding Cons by (rule last_in_set) simp
  then obtain v where "last (f # fs) = Some v" by auto
  with Cons show ?thesis by (cases r) (simp_all add: last_non_nil_def)
qed

lemma runActions_loop_outcomes:
  "runActions_loop env s ctx req acc actions st =
     (let outs = outcomes env s ctx req actions st;
          final = (if outs = [] then st else snd (last outs))
      in case (if outs = [] then None else snd (fst (last outs))) of
           Some err \<Rightarrow> ((None, Some err), final)
         | None \<Rightarrow>
             ((case last_non_nil (map (\<lambda>out. fst (fst out)) outs) of
                 None \<Rightarrow> acc | Some v \<Rightarrow> Some v, None), final))"
proof (induction actions arbitrary: acc st)
  case Nil
  then show ?case by (simp add: last_non_nil_Nil)
next
  case (Cons a as)
  obtain resp e st1 where a: "runAction env s ctx req a st = ((resp, e), st1)"
    by (metis surj_pair)
  show ?case
  proof (cases e)
    case (Some err)
    with a show ?thesis by simp
  next
    case None
    with a show ?thesis
      by (simp add: Cons.IH Let_def last_non_nil_Cons split: option.splits)
  qed
qed

lemma outcomes_butlast_ok:
  "out \<in> set (butlast (outcomes env s ctx req actions st)) \<Longrightarrow> snd (fst out) = None"
proof (induction actions arbitrary: st)
  case Nil
  then show ?case by simp
next
  case (Cons a as)
  obtain resp e st1 where a: "runAction env s ctx req a st = ((resp, e), st1)"
    by (metis surj_pair)
  show ?case
  proof (cases e)
    case (Some err)
    with a Cons.prems show ?thesis by simp
  next
    case None
    with a Cons.prems Cons.IH [of st1] show ?thesis
      by (auto split: if_splits)
  qed
qed

lemma outcomes_length: "length (outcomes env s ctx req actions st) \<le> length actions"
proof (induction actions arbitrary: st)
  case Nil
  then show ?case by simp
next
  case (Cons a as)
  obtain resp e st1 where a: "runAction env s ctx req a st = ((resp, e), st1)"
    by (metis surj_pair)
  with Cons.IH [of st1] show ?case by (cases e) simp_all
qed

lemma outcomes_all_ok_length:
  "\<forall>out \<in> set (outcomes env s ctx req actions st). snd (fst out) = None \<Longrightarrow>
   length (outcomes env s ctx req actions st) = length actions"
proof (induction actions arbitrary: st)
  case Nil
  then show ?case by simp
next
  case (Cons a as)
  obtain resp e st1 where a: "runAction env s ctx req a st = ((resp, e), st1)"
    by (metis surj_pair)
  with Cons.prems Cons.IH [of st1] show ?case by (cases e) simp_all
qed

lemma outcomes_nth:
  "i < length (outcomes env s ctx req actions st) \<Longrightarrow>
   outcomes env s ctx req actions st ! i =
     runAction env s ctx req (actions ! i)
       (if i = 0 then st else snd (outcomes env s ctx req actions st ! (i - 1)))"
proof (induction actions arbitrary: st i)
  case Nil
  then show ?case by simp
next
  case (Cons a as)
  obtain resp e st1 where a: "runAction env s ctx req a st = ((resp, e), st1)"
    by (metis surj_pair)
  show ?case
  proof (cases e)
    case (Some err)
    with a Cons.prems show ?thesis by simp
  next
    case None
    show ?thesis
    proof (cases i)
      case 0
      with a None show ?thesis by simp
    next
      case (Suc j)
      with a None Cons.prems have j: "j < length (outcomes env s ctx req as st1)" by simp
      from Cons.IH [OF j] a None Suc show ?thesis
        by (cases j) simp_all
    qed
  qed
qed

lemma last_non_nil_None_iff: "(last_non_nil rs = None) = (\<forall>r \<in> set rs. r = None)"
  by (induction rs) (auto simp: last_non_nil_Nil last_non_nil_Cons split: option.splits)

lemma runActions_no_outcome_iff:
  assumes "runActions env s ctx req actions st = ((resp, err), st')"
  shows "(resp = None \<and> err = None) =
         (\<forall>out \<in> set (outcomes env s ctx req actions st). fst out = (None, None))"
proof (cases "outcomes env s ctx req actions st = []")
  case True
  with assms show ?thesis
    by (simp add: runActions_def runActions_loop_outcomes [where acc = None] last_non_nil_Nil)
next
  case False
  let ?outs = "outcomes env s ctx req actions st"
  have split: "set ?outs = set (butlast ?outs) \<union> {last ?outs}"
    using False by (metis append_butlast_last_id set_append list.set(1) list.set(2) Un_commute insert_is_Un)
  have errs: "(\<forall>out \<in> set ?outs. snd (fst out) = None) = (snd (fst (last ?outs)) = None)"
    using split outcomes_butlast_ok [of _ env s ctx req actions st] by auto
  have all: "(\<forall>out \<in> set ?outs. fst out = (None, None)) =
      ((\<forall>out \<in> set ?outs. snd (fst out) = None) \<and> (\<forall>out \<in> set ?outs. fst (fst out) = None))"
    by (auto simp: prod_eq_iff)
  show ?thesis
  proof (cases "snd (fst (last ?outs))")
    case None
    with assms False have "resp = last_non_nil (map (\<lambda>out. fst (fst out)) ?outs)" "err = None"
      by (simp_all add: runActions_def runActions_loop_outcomes [where acc = None] Let_def
          split: option.splits)
    with None show ?thesis
      unfolding all errs by (simp add: last_non_nil_None_iff)
  next
    case (Some e)
    with assms False have "err = Some e"
      by (simp add: runActions_def runActions_loop_outcomes [where acc = None] Let_def)
    with Some show ?thesis
      unfolding all errs by simp
  qed
qed

lemma checkConditions_append:
  "checkConditions env ctx req (xs @ ys) st =
     (case checkConditions env ctx req xs st of
        ((ok, Some err), st1) \<Rightarrow> ((ok, Some err), st1)
      | ((ok, None), st1) \<Rightarrow>
          if ok then checkConditions env ctx req ys st1 else ((False, None), st1))"
proof (induction xs arbitrary: st)
  case Nil
  then show ?case by simp
next
  case (Cons x xs)
  then show ?case
    by (simp split: prod.splits option.splits)
qed


lemma resolveValueRef_JsonValue_once:
  "resolveValueRef env ctx req (ValueRef_JsonValue text) st =
     (case json_Unmarshal env text of
        Inl err \<Rightarrow> ((None, Some err), \<lparr>world = world st, trace = trace st @ [Ev_json_Unmarshal text]\<rparr>)
      | Inr val \<Rightarrow> ((val, None), \<lparr>world = world st, trace = trace st @ [Ev_json_Unmarshal text]\<rparr>))"
  by (simp add: resolveValueRef_def resolveValueRef_JsonValue_def call_json_Unmarshal_def
      effect_def split: sum.splits)

subsection \<open>A failed decode ends the interpretation\<close>

lemma trace_acquire:
  "call_acquireRunLock env ctx st = (aerr, st1) \<Longrightarrow>
   trace st1 = trace st @ [Ev_acquireRunLock aerr]"
  by (auto simp: call_acquireRunLock_def split: prod.splits)

lemma decode_resolveValueRef:
  assumes "json_Unmarshal env lit = Inl e"
      and "resolveValueRef env ctx req ref st = ((v, err), st')"
  shows "\<exists>evs. trace st' = trace st @ evs
           \<and> (Ev_json_Unmarshal lit \<in> set evs \<longrightarrow>
                err = Some e \<and> last evs = Ev_json_Unmarshal lit)"
  using assms
  by (cases ref)
     (auto simp: resolveValueRef_def resolveValueRef_CounterValue_def
        resolveValueRef_RequestField_def resolveValueRef_JsonValue_def call_json_Unmarshal_def
        effect_def Let_def split: sum.splits)

lemma decode_checkCondition:
  assumes dec: "json_Unmarshal env lit = Inl e"
      and c: "checkCondition env ctx req cond st = ((ok, err), st')"
  shows "\<exists>evs. trace st' = trace st @ evs
           \<and> (Ev_json_Unmarshal lit \<in> set evs \<longrightarrow>
                \<not> ok \<and> err = Some e \<and> last evs = Ev_json_Unmarshal lit)"
proof -
  obtain lv lerr st1 where l: "resolveValueRef env ctx req (Left cond) st = ((lv, lerr), st1)"
    by (metis surj_pair)
  from decode_resolveValueRef [OF dec l] obtain evs1 where
    e1: "trace st1 = trace st @ evs1"
    "Ev_json_Unmarshal lit \<in> set evs1 \<longrightarrow> lerr = Some e \<and> last evs1 = Ev_json_Unmarshal lit"
    by blast
  show ?thesis
  proof (cases lerr)
    case (Some x)
    with l c have "st' = st1" "err = Some x" "\<not> ok"
      by (simp_all add: checkCondition_def)
    with e1 Some show ?thesis by auto
  next
    case None
    obtain rv rerr st2 where r: "resolveValueRef env ctx req (Right cond) st1 = ((rv, rerr), st2)"
      by (metis surj_pair)
    from decode_resolveValueRef [OF dec r] obtain evs2 where
      e2: "trace st2 = trace st1 @ evs2"
      "Ev_json_Unmarshal lit \<in> set evs2 \<longrightarrow> rerr = Some e \<and> last evs2 = Ev_json_Unmarshal lit"
      by blast
    from None e1 have no1: "Ev_json_Unmarshal lit \<notin> set evs1" by auto
    show ?thesis
    proof (cases rerr)
      case (Some x)
      with l r None c have "st' = st2" "err = Some x" "\<not> ok"
        by (simp_all add: checkCondition_def)
      with e1 e2 Some no1 show ?thesis
        by (intro exI [of _ "evs1 @ evs2"]) (auto simp: last_append)
    next
      case rn: None
      with e2 have no2: "Ev_json_Unmarshal lit \<notin> set evs2" by auto
      from l r None rn c have "st' = st2"
        by (auto simp: checkCondition_def split: prod.splits option.splits)
      with e1 e2 no1 no2 show ?thesis
        by (intro exI [of _ "evs1 @ evs2"]) (auto simp: last_append)
    qed
  qed
qed

lemma decode_checkConditions:
  assumes dec: "json_Unmarshal env lit = Inl e"
  shows "checkConditions env ctx req conds st = ((ok, err), st') \<Longrightarrow>
         \<exists>evs. trace st' = trace st @ evs
           \<and> (Ev_json_Unmarshal lit \<in> set evs \<longrightarrow>
                \<not> ok \<and> err = Some e \<and> last evs = Ev_json_Unmarshal lit)"
proof (induction conds arbitrary: st)
  case Nil
  then show ?case by simp
next
  case (Cons c cs)
  obtain cok cerr st1 where c: "checkCondition env ctx req c st = ((cok, cerr), st1)"
    by (metis surj_pair)
  from decode_checkCondition [OF dec c] obtain evs1 where
    e1: "trace st1 = trace st @ evs1"
    "Ev_json_Unmarshal lit \<in> set evs1 \<longrightarrow>
       \<not> cok \<and> cerr = Some e \<and> last evs1 = Ev_json_Unmarshal lit"
    by blast
  show ?case
  proof (cases "cerr = None \<and> cok")
    case True
    with c Cons.prems have rest: "checkConditions env ctx req cs st1 = ((ok, err), st')"
      by simp
    from Cons.IH [OF rest] obtain evs2 where
      e2: "trace st' = trace st1 @ evs2"
      "Ev_json_Unmarshal lit \<in> set evs2 \<longrightarrow>
         \<not> ok \<and> err = Some e \<and> last evs2 = Ev_json_Unmarshal lit"
      by blast
    from True e1 have "Ev_json_Unmarshal lit \<notin> set evs1" by auto
    with e1 e2 show ?thesis
      by (intro exI [of _ "evs1 @ evs2"]) (auto simp: last_append)
  next
    case False
    with c Cons.prems have "st' = st1" "err = cerr" "\<not> ok"
      by (auto split: option.splits if_splits)
    with e1 show ?thesis by auto
  qed
qed

lemma decode_simple_actions:
  "runAction_Counter env ctx req cid delta st = ((resp, err), st') \<Longrightarrow>
   \<exists>evs. trace st' = trace st @ evs \<and> Ev_json_Unmarshal lit \<notin> set evs"
  "runAction_WaitOnBarrier env s ctx req b st = ((resp, err), st') \<Longrightarrow>
   \<exists>evs. trace st' = trace st @ evs \<and> Ev_json_Unmarshal lit \<notin> set evs"
  "runAction_SignalBarrier env ctx req b signalAll st = ((resp, err), st') \<Longrightarrow>
   \<exists>evs. trace st' = trace st @ evs \<and> Ev_json_Unmarshal lit \<notin> set evs"
  "runAction_SetResponse ctx req v st = ((resp, err), st') \<Longrightarrow>
   \<exists>evs. trace st' = trace st @ evs \<and> Ev_json_Unmarshal lit \<notin> set evs"
  "runAction_ReturnError env ctx req action st = ((resp, err), st') \<Longrightarrow>
   \<exists>evs. trace st' = trace st @ evs \<and> Ev_json_Unmarshal lit \<notin> set evs"
  by (auto simp: runAction_Counter_def runAction_WaitOnBarrier_def runAction_SignalBarrier_def
      runAction_SetResponse_def runAction_ReturnError_def call_releaseRunLock_def
      call_Barrier_Wait_def call_acquireRunLock_def effect_def Let_def
      split: prod.splits option.splits if_splits)

lemma decode_actions:
  "json_Unmarshal env lit = Inl e \<longrightarrow>
   (\<forall>resp err st'. runAction env s ctx req a st = ((resp, err), st') \<longrightarrow>
      (\<exists>evs. trace st' = trace st @ evs
         \<and> (Ev_json_Unmarshal lit \<in> set evs \<longrightarrow>
              resp = None \<and> err = Some e \<and> last evs = Ev_json_Unmarshal lit)))"
  "json_Unmarshal env lit = Inl e \<longrightarrow>
   (\<forall>resp err st'. runAction_If env s ctx req c m n st = ((resp, err), st') \<longrightarrow>
      (\<exists>evs. trace st' = trace st @ evs
         \<and> (Ev_json_Unmarshal lit \<in> set evs \<longrightarrow>
              resp = None \<and> err = Some e \<and> last evs = Ev_json_Unmarshal lit)))"
  "json_Unmarshal env lit = Inl e \<longrightarrow>
   (\<forall>resp err st'. runActions_loop env s ctx req acc as st = ((resp, err), st') \<longrightarrow>
      (\<exists>evs. trace st' = trace st @ evs
         \<and> (Ev_json_Unmarshal lit \<in> set evs \<longrightarrow>
              resp = None \<and> err = Some e \<and> last evs = Ev_json_Unmarshal lit)))"
proof (induction env s ctx req a st and env s ctx req c m n st and env s ctx req acc as st
    rule: runAction_runAction_If_runActions_loop.induct)
  case (1 env s ctx req cond match noMatch st)
  then show ?case by simp
next
  case (2 env s ctx req counterId delta st)
  show ?case using decode_simple_actions(1) [of env ctx req counterId delta st] by fastforce
next
  case (3 env s ctx req barrierId st)
  show ?case using decode_simple_actions(2) [of env s ctx req barrierId st] by fastforce
next
  case (4 env s ctx req barrierId signalAll st)
  show ?case using decode_simple_actions(3) [of env ctx req barrierId signalAll st] by fastforce
next
  case (5 env s ctx req v st)
  show ?case using decode_simple_actions(4) [of ctx req v st] by fastforce
next
  case (6 env s ctx req action st)
  show ?case using decode_simple_actions(5) [of env ctx req action st] by fastforce
next
  case (7 env s ctx req st)
  show ?case by simp
next
  case (8 env s ctx req cond match noMatch st)
  show ?case
  proof (intro impI allI)
    fix resp err st'
    assume dec: "json_Unmarshal env lit = Inl e"
      and run: "runAction_If env s ctx req cond match noMatch st = ((resp, err), st')"
    obtain ok cerr st1 where c: "checkConditions env ctx req cond st = ((ok, cerr), st1)"
      by (metis surj_pair)
    from decode_checkConditions [OF dec c] obtain evs1 where
      e1: "trace st1 = trace st @ evs1"
      "Ev_json_Unmarshal lit \<in> set evs1 \<longrightarrow>
         \<not> ok \<and> cerr = Some e \<and> last evs1 = Ev_json_Unmarshal lit"
      by blast
    show "\<exists>evs. trace st' = trace st @ evs
         \<and> (Ev_json_Unmarshal lit \<in> set evs \<longrightarrow>
              resp = None \<and> err = Some e \<and> last evs = Ev_json_Unmarshal lit)"
    proof (cases cerr)
      case (Some x)
      with c run have "st' = st1" "resp = None" "err = Some x" by simp_all
      with e1 Some show ?thesis by auto
    next
      case None
      with e1 have no1: "Ev_json_Unmarshal lit \<notin> set evs1" by auto
      have "\<exists>evs2. trace st' = trace st1 @ evs2
         \<and> (Ev_json_Unmarshal lit \<in> set evs2 \<longrightarrow>
              resp = None \<and> err = Some e \<and> last evs2 = Ev_json_Unmarshal lit)"
      proof (cases ok)
        case True
        with c None run have "runActions_loop env s ctx req None match st1 = ((resp, err), st')"
          by simp
        with "8.IH"(1) [OF c [symmetric] refl None True] dec show ?thesis by blast
      next
        case False
        with c None run have "runActions_loop env s ctx req None noMatch st1 = ((resp, err), st')"
          by simp
        with "8.IH"(2) [OF c [symmetric] refl None False] dec show ?thesis by blast
      qed
      then obtain evs2 where e2: "trace st' = trace st1 @ evs2"
        "Ev_json_Unmarshal lit \<in> set evs2 \<longrightarrow>
              resp = None \<and> err = Some e \<and> last evs2 = Ev_json_Unmarshal lit"
        by blast
      with e1 no1 show ?thesis
        by (intro exI [of _ "evs1 @ evs2"]) (auto simp: last_append)
    qed
  qed
next
  case (9 env s ctx req respOut st)
  then show ?case by simp
next
  case (10 env s ctx req respOut action actions st)
  show ?case
  proof (intro impI allI)
    fix resp err st'
    assume dec: "json_Unmarshal env lit = Inl e"
      and run: "runActions_loop env s ctx req respOut (action # actions) st = ((resp, err), st')"
    obtain r1 err1 st1 where a: "runAction env s ctx req action st = ((r1, err1), st1)"
      by (metis surj_pair)
    from "10.IH"(1) dec a obtain evs1 where
      e1: "trace st1 = trace st @ evs1"
      "Ev_json_Unmarshal lit \<in> set evs1 \<longrightarrow>
         r1 = None \<and> err1 = Some e \<and> last evs1 = Ev_json_Unmarshal lit"
      by blast
    show "\<exists>evs. trace st' = trace st @ evs
         \<and> (Ev_json_Unmarshal lit \<in> set evs \<longrightarrow>
              resp = None \<and> err = Some e \<and> last evs = Ev_json_Unmarshal lit)"
    proof (cases err1)
      case (Some x)
      with a run have "st' = st1" "resp = None" "err = Some x" by simp_all
      with e1 Some show ?thesis by auto
    next
      case None
      with e1 have no1: "Ev_json_Unmarshal lit \<notin> set evs1" by auto
      from a None run have rest:
        "runActions_loop env s ctx req (if r1 \<noteq> None then r1 else respOut) actions st1 =
           ((resp, err), st')"
        by simp
      from "10.IH"(2) [OF a [symmetric] refl None] dec rest obtain evs2 where
        e2: "trace st' = trace st1 @ evs2"
        "Ev_json_Unmarshal lit \<in> set evs2 \<longrightarrow>
              resp = None \<and> err = Some e \<and> last evs2 = Ev_json_Unmarshal lit"
        by blast
      with e1 no1 show ?thesis
        by (intro exI [of _ "evs1 @ evs2"]) (auto simp: last_append)
    qed
  qed
qed

subsection \<open>The run lock around a barrier wait\<close>



subsection \<open>Building the status of ReturnError\<close>

lemma WithDetails_nil:
  "foldl (\<lambda>st detail. fst (Status_WithDetails marshal st detail)) None ds = None"
  by (induction ds) (simp_all add: Status_WithDetails_def)

lemma runAction_ReturnError_detail_failure:
  assumes "anypb_New env d = Inl e"
  shows "runAction_ReturnError env ctx req
           \<lparr>Code = c, Message = msg, Details = ds @ d # ds'\<rparr> st = ((None, None), st)"
proof -
  have "fst (Status_WithDetails (anypb_New env) p d) = None" for p
    using assms by (simp add: Status_WithDetails_def split: option.splits)
  then show ?thesis
    by (simp add: runAction_ReturnError_def WithDetails_nil Status_Err_def)
qed

subsection \<open>One invocation of the conditional counter hook\<close>

lemma conditional_counter_run:
  fixes env :: "('h, 'c, 'v, 'd) collaborators" and valueN :: "'h \<Rightarrow> 64 word"
  assumes lock: "\<And>h. fst (acquireRunLock env ctx h) = None"
      and frame: "\<And>h. valueN (snd (acquireRunLock env ctx h)) = valueN h"
                 "\<And>h. valueN (releaseRunLock env h) = valueN h"
                 "\<And>h. valueN (GetCounter env ''n'' h) = valueN h"
                 "\<And>h. valueN (getCounterLocked env ''n'' h) = valueN h"
      and get: "\<And>h. Counter_Get env ''n'' h = box (valueN h)"
      and upd: "\<And>h d. valueN (Counter_Update env ''n'' d h) = valueN h + d"
      and json: "json_Unmarshal env ''3'' = Inr three"
      and cmp: "\<And>k. k \<le> 3 \<Longrightarrow>
                  \<exists>d. govalcmp_Compare env (Some (box k)) three = Inr d \<and> (d < 0) = (k < 3)"
      and hook: "Actions (Hook s) =
                   [HookAction_If
                      [\<lparr>Left = ValueRef_CounterValue ''n'', Op = LESS_THAN,
                        Right = ValueRef_JsonValue ''3''\<rparr>]
                      [HookAction_Counter ''n'' 1, HookAction_SetResponse R1]
                      [HookAction_ReturnError \<lparr>Code = 8, Message = msg, Details = []\<rparr>]]"
      and k: "valueN (world st) = k" "k \<le> 3"
  shows "fst (Run env s ctx req st) =
           (if k < 3 then (Some R1, None)
            else (None, Some (StatusError \<lparr>st_code = 8, st_message = msg, st_details = []\<rparr>)))
       \<and> valueN (world (snd (Run env s ctx req st))) = (if k < 3 then k + 1 else k)
       \<and> handlerCalls (snd (Run env s ctx req st)) = handlerCalls st"
proof -
  obtain h1 where a: "acquireRunLock env ctx (world st) = (None, h1)"
    using lock [of "world st"] by (cases "acquireRunLock env ctx (world st)") simp
  have h1: "valueN h1 = k"
    using frame(1) [of "world st"] a k(1) by simp
  let ?st1 = "\<lparr>world = h1, trace = trace st @ [Ev_acquireRunLock None]\<rparr>"
  have acq: "call_acquireRunLock env ctx st = (None, ?st1)"
    by (simp add: call_acquireRunLock_def a)
  obtain d where d: "govalcmp_Compare env (Some (box k)) three = Inr d" "(d < 0) = (k < 3)"
    using cmp [OF k(2)] by blast
  let ?h2 = "GetCounter env ''n'' h1"
  let ?st2 = "\<lparr>world = ?h2, trace = trace ?st1 @ [Ev_GetCounter ''n'', Ev_Counter_Get ''n'',
                  Ev_json_Unmarshal ''3'']\<rparr>"
  have cond: "checkConditions env ctx req
                [\<lparr>Left = ValueRef_CounterValue ''n'', Op = LESS_THAN,
                  Right = ValueRef_JsonValue ''3''\<rparr>] ?st1 = ((k < 3, None), ?st2)"
    by (simp add: checkCondition_def resolveValueRef_def resolveValueRef_CounterValue_def
        resolveValueRef_JsonValue_def call_json_Unmarshal_def effect_def Let_def
        get frame h1 json compare_def d)
  show ?thesis
  proof (cases "k < 3")
    case True
    let ?h4 = "Counter_Update env ''n'' 1 (getCounterLocked env ''n'' ?h2)"
    let ?st4 = "\<lparr>world = ?h4, trace = trace ?st2 @ [Ev_getCounterLocked ''n'',
                    Ev_Counter_Update ''n'' 1]\<rparr>"
    have act: "runActions env s ctx req (Actions (Hook s)) ?st1 = ((Some R1, None), ?st4)"
      using True
      by (simp add: hook runActions_def cond runAction_Counter_def runAction_SetResponse_def
          effect_def Let_def del: checkConditions.simps)
    have v: "valueN ?h4 = k + 1"
      by (simp add: upd frame h1)
    have "handlerCalls ?st4 = handlerCalls st"
      by (simp add: handlerCalls_def)
    with True v Run_acquired [OF acq act] show ?thesis
      by (simp add: call_releaseRunLock_def effect_def frame handlerCalls_def)
  next
    case False
    have act: "runActions env s ctx req (Actions (Hook s)) ?st1 =
                 ((None, Some (StatusError \<lparr>st_code = 8, st_message = msg, st_details = []\<rparr>)),
                  ?st2)"
      using False
      by (simp add: hook runActions_def cond runAction_ReturnError_def status_New_def
          Status_Err_def del: checkConditions.simps)
    have "handlerCalls ?st2 = handlerCalls st"
      by (simp add: handlerCalls_def)
    with False Run_acquired [OF acq act] show ?thesis
      by (simp add: call_releaseRunLock_def effect_def frame h1 handlerCalls_def)
  qed
qed

subsection \<open>Evaluating the session that serves one invocation at a time\<close>

lemmas session_eval =
  session_env_def session_init_def session_acquireRunLock_def session_getCounter_def
  session_Counter_Get_def session_Counter_Update_def session_getBarrier_def
  session_Barrier_Wait_def session_Barrier_SignalAll_def session_Barrier_TrySignalAny_def
  decimal_Unmarshal_def numeric_Compare_def utf8_anypb_New_def echo_runState_def ctxErr_def

lemmas run_eval =
  Run_def runActions_def runAction_Counter_def runAction_WaitOnBarrier_def
  runAction_SignalBarrier_def runAction_SetResponse_def runAction_ReturnError_def
  checkCondition_def compare_def resolveValueRef_def resolveValueRef_CounterValue_def
  resolveValueRef_RequestField_def resolveValueRef_JsonValue_def
  call_acquireRunLock_def call_releaseRunLock_def call_Barrier_Wait_def call_Handler_def
  call_json_Unmarshal_def effect_def status_New_def Status_WithDetails_def Status_Err_def
  Let_def

lemma word_le_3_cases:
  fixes k :: "64 word"
  assumes "k \<le> 3"
  shows "k = 0 \<or> k = 1 \<or> k = 2 \<or> k = 3"
proof -
  have "unat k \<le> 3" using assms by (simp add: word_le_nat_alt)
  then have "unat k = 0 \<or> unat k = 1 \<or> unat k = 2 \<or> unat k = 3" by arith
  then show ?thesis
    by (auto dest!: arg_cong [where f = "word_of_nat :: nat \<Rightarrow> 64 word"])
qed

section \<open>Properties\<close>

subsection \<open>Run and the downstream handler\<close>

text \<open>
  C1. For every hook, once the run lock is acquired, \<^verbatim>\<open>Run\<close> calls the captured
  downstream handler exactly once if interpreting the hook's action list produced neither
  a non-nil response nor an error, and not at all otherwise: the number of handler calls
  in the trace grows by one in the first case and stays the same in the second. In the
  first case the result of \<^verbatim>\<open>Run\<close> is the handler's result for the original
  context and request; otherwise it is the result of the action list. The action list
  produces neither a response nor an error exactly when every top-level action that ran
  returned nil and no error, which is the case in particular for the empty list.
\<close>

theorem Run_calls_handler_iff_no_outcome:
  assumes "call_acquireRunLock env ctx st = (None, st1)"
      and "runActions env s ctx req (Actions (Hook s)) st1 = ((resp, err), st2)"
  shows "handlerCalls (snd (Run env s ctx req st)) =
           handlerCalls st + (if resp = None \<and> err = None then 1 else 0)
       \<and> fst (Run env s ctx req st) =
           (if resp = None \<and> err = None
            then fst (Handler s ctx req (world (call_releaseRunLock env st2)))
            else (resp, err))
       \<and> (resp = None \<and> err = None) =
           (\<forall>out \<in> set (outcomes env s ctx req (Actions (Hook s)) st1). fst out = (None, None))
       \<and> (Actions (Hook s) = [] \<longrightarrow> resp = None \<and> err = None)"
proof -
  have c1: "handlerCalls st1 = handlerCalls st"
    using assms(1) by (rule handlerCalls_acquire)
  have c2: "handlerCalls st2 = handlerCalls st1"
    using assms(2) by (rule handlerCalls_runActions)
  have c3: "handlerCalls (call_releaseRunLock env st2) = handlerCalls st"
    by (simp add: handlerCalls_release c1 c2)
  have run: "Run env s ctx req st =
     (if resp = None \<and> err = None then call_Handler s ctx req (call_releaseRunLock env st2)
      else ((resp, err), call_releaseRunLock env st2))"
    using assms by (rule Run_acquired)
  have count: "handlerCalls (snd (Run env s ctx req st)) =
           handlerCalls st + (if resp = None \<and> err = None then 1 else 0)"
    by (simp add: run handlerCalls_Handler c3)
  have result: "fst (Run env s ctx req st) =
           (if resp = None \<and> err = None
            then fst (Handler s ctx req (world (call_releaseRunLock env st2)))
            else (resp, err))"
    by (simp add: run call_Handler_def split: prod.splits)
  have empty: "Actions (Hook s) = [] \<longrightarrow> resp = None \<and> err = None"
    using assms(2) by (auto simp: runActions_def)
  note each = runActions_no_outcome_iff [OF assms(2)]
  from count result each empty show ?thesis by blast
qed

theorem Run_calls_handler_iff_no_outcome_witness:
  "call_acquireRunLock session_env Background session_init =
     (None, \<lparr>world = world session_init, trace = [Ev_acquireRunLock None]\<rparr>)
   \<and> runActions session_env (echo_runState [HookAction_Counter ''calls'' 1]) Background (7 :: nat)
       (Actions (Hook (echo_runState [HookAction_Counter ''calls'' 1])))
       \<lparr>world = world session_init, trace = [Ev_acquireRunLock None]\<rparr> =
     ((None, None),
      \<lparr>world = \<lparr>counters = [''calls'' \<mapsto> 1], barriers = Map.empty, ctxDone = False\<rparr>,
       trace = [Ev_acquireRunLock None, Ev_getCounterLocked ''calls'',
                Ev_Counter_Update ''calls'' 1]\<rparr>)
   \<and> handlerCalls (snd (Run session_env (echo_runState [HookAction_Counter ''calls'' 1])
         Background (7 :: nat) session_init)) = 1
   \<and> fst (Run session_env (echo_runState [HookAction_Counter ''calls'' 1])
         Background (7 :: nat) session_init) = (Some 7, None)"
proof -
  let ?s = "echo_runState [HookAction_Counter ''calls'' 1] :: (session, Context, nat, nat, string) runState"
  have acq: "call_acquireRunLock session_env Background session_init =
     (None, \<lparr>world = world session_init, trace = [Ev_acquireRunLock None]\<rparr>)"
    by (simp add: session_eval run_eval)
  have act: "runActions session_env ?s Background (7 :: nat) (Actions (Hook ?s))
       \<lparr>world = world session_init, trace = [Ev_acquireRunLock None]\<rparr> =
     ((None, None),
      \<lparr>world = \<lparr>counters = [''calls'' \<mapsto> 1], barriers = Map.empty, ctxDone = False\<rparr>,
       trace = [Ev_acquireRunLock None, Ev_getCounterLocked ''calls'',
                Ev_Counter_Update ''calls'' 1]\<rparr>)"
    by (simp add: session_eval run_eval)
  show ?thesis
    using acq act Run_calls_handler_iff_no_outcome [OF acq act]
    by (simp add: session_eval run_eval handlerCalls_def)
qed

subsection \<open>Lists of actions\<close>

text \<open>
  C2. For every action list, \<^verbatim>\<open>runActions\<close> executes the actions in order: the
  entry \<open>i\<close> of \<open>outcomes\<close> is the execution of the action \<open>i\<close> from the state left
  by the entry before it (the initial state for the first), and only the last entry can
  carry an error. If it does, that first error aborts the list: it is returned with a nil
  response, whatever response was remembered, from the state that action left, and no
  later action is executed. If no action returns an error, all actions are executed and
  the response returned is the last non-nil response among them (nil if there is none).
\<close>

theorem runActions_in_order:
  "runActions env s ctx req actions st =
     (let outs = outcomes env s ctx req actions st;
          final = (if outs = [] then st else snd (last outs))
      in case (if outs = [] then None else snd (fst (last outs))) of
           Some err \<Rightarrow> ((None, Some err), final)
         | None \<Rightarrow> ((last_non_nil (map (\<lambda>out. fst (fst out)) outs), None), final))
   \<and> (\<forall>i < length (outcomes env s ctx req actions st).
         outcomes env s ctx req actions st ! i =
           runAction env s ctx req (actions ! i)
             (if i = 0 then st else snd (outcomes env s ctx req actions st ! (i - 1))))
   \<and> (\<forall>out \<in> set (butlast (outcomes env s ctx req actions st)). snd (fst out) = None)
   \<and> length (outcomes env s ctx req actions st) \<le> length actions
   \<and> ((\<forall>out \<in> set (outcomes env s ctx req actions st). snd (fst out) = None) \<longrightarrow>
        length (outcomes env s ctx req actions st) = length actions)"
proof -
  have idc: "\<And>x :: 'r option. (case x of None \<Rightarrow> None | Some v \<Rightarrow> Some v) = x"
    by (simp split: option.splits)
  have "runActions env s ctx req actions st =
     (let outs = outcomes env s ctx req actions st;
          final = (if outs = [] then st else snd (last outs))
      in case (if outs = [] then None else snd (fst (last outs))) of
           Some err \<Rightarrow> ((None, Some err), final)
         | None \<Rightarrow> ((last_non_nil (map (\<lambda>out. fst (fst out)) outs), None), final))"
    by (simp add: runActions_def runActions_loop_outcomes [where acc = None] Let_def idc
        cong: option.case_cong)
  then show ?thesis
    using outcomes_nth [of _ env s ctx req actions st]
      outcomes_butlast_ok [of _ env s ctx req actions st]
      outcomes_length [of env s ctx req actions st]
      outcomes_all_ok_length [of env s ctx req actions st]
    by blast
qed

theorem runActions_in_order_witness:
  "fst (runActions session_env (echo_runState []) Background (0 :: nat)
     [HookAction_SetResponse 1, HookAction_Counter ''n'' 1, HookAction_SetResponse 2,
      HookAction_ReturnError \<lparr>Code = 5, Message = ''no'', Details = []\<rparr>,
      HookAction_SetResponse 3] session_init) =
     (None, Some (StatusError \<lparr>st_code = 5, st_message = ''no'', st_details = []\<rparr>))
   \<and> length (outcomes session_env (echo_runState []) Background (0 :: nat)
     [HookAction_SetResponse 1, HookAction_Counter ''n'' 1, HookAction_SetResponse 2,
      HookAction_ReturnError \<lparr>Code = 5, Message = ''no'', Details = []\<rparr>,
      HookAction_SetResponse 3] session_init) = 4
   \<and> fst (runActions session_env (echo_runState []) Background (0 :: nat)
     [HookAction_SetResponse 1, HookAction_Counter ''n'' 1, HookAction_SetResponse 2,
      HookAction_SignalBarrier ''b'' True] session_init) = (Some 2, None)"
proof -
  let ?a = "[HookAction_SetResponse 1, HookAction_Counter ''n'' 1, HookAction_SetResponse 2,
      HookAction_ReturnError \<lparr>Code = 5, Message = ''no'', Details = []\<rparr>,
      HookAction_SetResponse 3] :: (nat, string) HookAction list"
  let ?b = "[HookAction_SetResponse 1, HookAction_Counter ''n'' 1, HookAction_SetResponse 2,
      HookAction_SignalBarrier ''b'' True] :: (nat, string) HookAction list"
  show ?thesis
    using runActions_in_order [of session_env "echo_runState []" Background 0 ?a session_init]
      runActions_in_order [of session_env "echo_runState []" Background 0 ?b session_init]
    by (simp add: session_eval run_eval last_non_nil_def)
qed

subsection \<open>ReturnError\<close>




subsection \<open>Comparison operators\<close>

text \<open>
  C4. For every pair of resolved values whose comparison yields the delta \<open>d\<close>:
  \<^verbatim>\<open>EQUAL\<close> holds iff \<open>d = 0\<close>, \<^verbatim>\<open>GREATER_THAN\<close> iff \<open>d > 0\<close>,
  \<^verbatim>\<open>GREATER_THAN_OR_EQUAL\<close> iff \<open>d \<ge> 0\<close>, \<^verbatim>\<open>LESS_THAN\<close> iff \<open>d < 0\<close>,
  \<^verbatim>\<open>LESS_THAN_OR_EQUAL\<close> iff \<open>d \<le> 0\<close>, each without error; for an operator
  outside these five the comparison fails with the invalid-operator error.
\<close>

theorem compare_operator:
  assumes "govalcmp_Compare env left right = Inr delta"
  shows "compare env left EQUAL right = (delta = 0, None)
       \<and> compare env left GREATER_THAN right = (delta > 0, None)
       \<and> compare env left GREATER_THAN_OR_EQUAL right = (delta \<ge> 0, None)
       \<and> compare env left LESS_THAN right = (delta < 0, None)
       \<and> compare env left LESS_THAN_OR_EQUAL right = (delta \<le> 0, None)
       \<and> compare env left (ComparisonOperator_other n) right =
             (False, Some (ErrorsNew ''invalid comparison operator''))"
  using assms by (simp add: compare_def)

theorem compare_operator_witness:
  "govalcmp_Compare session_env (Some 2) (Some 3) = Inr (- 1)
   \<and> compare session_env (Some 2) EQUAL (Some 3) = (False, None)
   \<and> compare session_env (Some 2) GREATER_THAN (Some 3) = (False, None)
   \<and> compare session_env (Some 2) GREATER_THAN_OR_EQUAL (Some 3) = (False, None)
   \<and> compare session_env (Some 2) LESS_THAN (Some 3) = (True, None)
   \<and> compare session_env (Some 2) LESS_THAN_OR_EQUAL (Some 3) = (True, None)
   \<and> compare session_env (Some 2) (ComparisonOperator_other 7) (Some 3) =
         (False, Some (ErrorsNew ''invalid comparison operator''))"
proof -
  have h: "govalcmp_Compare session_env (Some 2) (Some 3) = Inr (- 1)"
    by (simp add: session_env_def numeric_Compare_def)
  show ?thesis
    using h compare_operator [OF h, of 7] by simp
qed

subsection \<open>Lists of conditions\<close>

text \<open>
  C5. A condition list is a conjunction that stops at the first false condition: when
  the conditions before \<open>c\<close> evaluate to true and \<open>c\<close> evaluates to false, the list
  evaluates to false without error and leaves the state \<open>c\<close> left, whatever conditions
  follow \<open>c\<close>; none of them is evaluated, so one whose evaluation would fail cannot make
  the hook fail, and an \<^verbatim>\<open>If\<close> action with this list runs its no-match branch.
\<close>

theorem checkConditions_short_circuit:
  assumes "checkConditions env ctx req cpre st = ((True, None), st1)"
      and "checkCondition env ctx req c st1 = ((False, None), st2)"
  shows "checkConditions env ctx req (cpre @ c # cpost) st = ((False, None), st2)
       \<and> runAction_If env s ctx req (cpre @ c # cpost) match noMatch st =
           runActions env s ctx req noMatch st2"
proof -
  have "checkConditions env ctx req (cpre @ c # cpost) st = ((False, None), st2)"
    using assms by (simp add: checkConditions_append)
  then show ?thesis by (simp add: runActions_def)
qed

theorem checkConditions_short_circuit_witness:
  "checkConditions session_env Background (0 :: nat)
     [\<lparr>Left = ValueRef_CounterValue ''n'', Op = EQUAL, Right = ValueRef_JsonValue ''0''\<rparr>]
     session_init =
     ((True, None),
      \<lparr>world = \<lparr>counters = [''n'' \<mapsto> 0], barriers = Map.empty, ctxDone = False\<rparr>,
       trace = [Ev_GetCounter ''n'', Ev_Counter_Get ''n'', Ev_json_Unmarshal ''0'']\<rparr>)
   \<and> checkCondition session_env Background (0 :: nat)
       \<lparr>Left = ValueRef_CounterValue ''n'', Op = GREATER_THAN, Right = ValueRef_JsonValue ''3''\<rparr>
       \<lparr>world = \<lparr>counters = [''n'' \<mapsto> 0], barriers = Map.empty, ctxDone = False\<rparr>,
        trace = [Ev_GetCounter ''n'', Ev_Counter_Get ''n'', Ev_json_Unmarshal ''0'']\<rparr> =
     ((False, None),
      \<lparr>world = \<lparr>counters = [''n'' \<mapsto> 0], barriers = Map.empty, ctxDone = False\<rparr>,
       trace = [Ev_GetCounter ''n'', Ev_Counter_Get ''n'', Ev_json_Unmarshal ''0'',
                Ev_GetCounter ''n'', Ev_Counter_Get ''n'', Ev_json_Unmarshal ''3'']\<rparr>)
   \<and> fst (checkConditions session_env Background (0 :: nat)
       [\<lparr>Left = ValueRef_JsonValue ''{'', Op = EQUAL, Right = ValueRef_RequestField ''a.b''\<rparr>]
       session_init) = (False, Some (OtherError ''invalid character''))
   \<and> checkConditions session_env Background (0 :: nat)
       ([\<lparr>Left = ValueRef_CounterValue ''n'', Op = EQUAL, Right = ValueRef_JsonValue ''0''\<rparr>]
        @ \<lparr>Left = ValueRef_CounterValue ''n'', Op = GREATER_THAN, Right = ValueRef_JsonValue ''3''\<rparr>
        # [\<lparr>Left = ValueRef_JsonValue ''{'', Op = EQUAL, Right = ValueRef_RequestField ''a.b''\<rparr>])
       session_init =
     ((False, None),
      \<lparr>world = \<lparr>counters = [''n'' \<mapsto> 0], barriers = Map.empty, ctxDone = False\<rparr>,
       trace = [Ev_GetCounter ''n'', Ev_Counter_Get ''n'', Ev_json_Unmarshal ''0'',
                Ev_GetCounter ''n'', Ev_Counter_Get ''n'', Ev_json_Unmarshal ''3'']\<rparr>)"
proof -
  let ?st1 = "\<lparr>world = \<lparr>counters = [''n'' \<mapsto> 0], barriers = Map.empty, ctxDone = False\<rparr>,
       trace = [Ev_GetCounter ''n'', Ev_Counter_Get ''n'', Ev_json_Unmarshal ''0'']\<rparr>"
  have pre: "checkConditions session_env Background (0 :: nat)
     [\<lparr>Left = ValueRef_CounterValue ''n'', Op = EQUAL, Right = ValueRef_JsonValue ''0''\<rparr>]
     session_init = ((True, None), ?st1)"
    by (simp add: session_eval run_eval)
  have c: "checkCondition session_env Background (0 :: nat)
       \<lparr>Left = ValueRef_CounterValue ''n'', Op = GREATER_THAN, Right = ValueRef_JsonValue ''3''\<rparr>
       ?st1 =
     ((False, None),
      \<lparr>world = \<lparr>counters = [''n'' \<mapsto> 0], barriers = Map.empty, ctxDone = False\<rparr>,
       trace = [Ev_GetCounter ''n'', Ev_Counter_Get ''n'', Ev_json_Unmarshal ''0'',
                Ev_GetCounter ''n'', Ev_Counter_Get ''n'', Ev_json_Unmarshal ''3'']\<rparr>)"
    by (simp add: session_eval run_eval)
  have post: "fst (checkConditions session_env Background (0 :: nat)
       [\<lparr>Left = ValueRef_JsonValue ''{'', Op = EQUAL, Right = ValueRef_RequestField ''a.b''\<rparr>]
       session_init) = (False, Some (OtherError ''invalid character''))"
    by (simp add: session_eval run_eval)
  note all = checkConditions_short_circuit [OF pre c,
        of "[\<lparr>Left = ValueRef_JsonValue ''{'', Op = EQUAL, Right = ValueRef_RequestField ''a.b''\<rparr>]",
        THEN conjunct1]
  show ?thesis
    by (rule conjI pre c post all)+
qed

subsection \<open>The conditional counter scenario\<close>

text \<open>
  C6. The hook has the single action \<^verbatim>\<open>If\<close> with condition counter "n" < JSON 3,
  match branch [Counter("n", +1), SetResponse(R1)] and no-match branch
  [ReturnError(RESOURCE_EXHAUSTED)], where RESOURCE_EXHAUSTED is the status code 8. In a
  session whose run lock is free for the four contexts, whose operations on counter "n"
  read and add to one cell \<open>valueN\<close>, whose decoder reads the literal 3 and whose
  comparator orders the counter values 0 to 3 against it, four invocations one after the
  other from counter value 0 return R1, R1, R1 and then the RESOURCE_EXHAUSTED status as
  error, with the counter at 1, 2, 3 and 3; the downstream handler is never called.
\<close>

theorem conditional_counter_four_invocations:
  fixes env :: "('h, 'c, 'v, 'd) collaborators" and valueN :: "'h \<Rightarrow> 64 word"
  assumes lock: "\<And>c h. c \<in> set [ctx1, ctx2, ctx3, ctx4] \<Longrightarrow> fst (acquireRunLock env c h) = None"
      and frame: "\<And>c h. c \<in> set [ctx1, ctx2, ctx3, ctx4] \<Longrightarrow>
                    valueN (snd (acquireRunLock env c h)) = valueN h"
                 "\<And>h. valueN (releaseRunLock env h) = valueN h"
                 "\<And>h. valueN (GetCounter env ''n'' h) = valueN h"
                 "\<And>h. valueN (getCounterLocked env ''n'' h) = valueN h"
      and get: "\<And>h. Counter_Get env ''n'' h = box (valueN h)"
      and upd: "\<And>h d. valueN (Counter_Update env ''n'' d h) = valueN h + d"
      and json: "json_Unmarshal env ''3'' = Inr three"
      and cmp: "\<And>k. k \<le> 3 \<Longrightarrow>
                  \<exists>d. govalcmp_Compare env (Some (box k)) three = Inr d \<and> (d < 0) = (k < 3)"
      and hook: "Actions (Hook s) =
                   [HookAction_If
                      [\<lparr>Left = ValueRef_CounterValue ''n'', Op = LESS_THAN,
                        Right = ValueRef_JsonValue ''3''\<rparr>]
                      [HookAction_Counter ''n'' 1, HookAction_SetResponse R1]
                      [HookAction_ReturnError \<lparr>Code = 8, Message = msg, Details = []\<rparr>]]"
      and init: "valueN (world st0) = 0"
      and runs: "Run env s ctx1 req1 st0 = (res1, st1)" "Run env s ctx2 req2 st1 = (res2, st2)"
                "Run env s ctx3 req3 st2 = (res3, st3)" "Run env s ctx4 req4 st3 = (res4, st4)"
  shows "res1 = (Some R1, None) \<and> valueN (world st1) = 1
       \<and> res2 = (Some R1, None) \<and> valueN (world st2) = 2
       \<and> res3 = (Some R1, None) \<and> valueN (world st3) = 3
       \<and> res4 = (None, Some (StatusError \<lparr>st_code = 8, st_message = msg, st_details = []\<rparr>))
       \<and> valueN (world st4) = 3
       \<and> handlerCalls st4 = handlerCalls st0"
proof -
  have one: "fst (Run env s ctx req st) =
           (if k < 3 then (Some R1, None)
            else (None, Some (StatusError \<lparr>st_code = 8, st_message = msg, st_details = []\<rparr>)))
       \<and> valueN (world (snd (Run env s ctx req st))) = (if k < 3 then k + 1 else k)
       \<and> handlerCalls (snd (Run env s ctx req st)) = handlerCalls st"
    if "ctx \<in> set [ctx1, ctx2, ctx3, ctx4]" "valueN (world st) = k" "k \<le> 3" for st k ctx req
    by (rule conditional_counter_run
          [OF lock [OF that(1)] frame(1) [OF that(1)] frame(2-4) get upd json _ hook that(2,3)])
       (erule cmp)
  have r1: "res1 = (Some R1, None)" "valueN (world st1) = 1" "handlerCalls st1 = handlerCalls st0"
    using one [OF _ init, of ctx1 req1] runs(1) by simp_all
  have r2: "res2 = (Some R1, None)" "valueN (world st2) = 2" "handlerCalls st2 = handlerCalls st1"
    using one [OF _ r1(2), of ctx2 req2] runs(2) by simp_all
  have r3: "res3 = (Some R1, None)" "valueN (world st3) = 3" "handlerCalls st3 = handlerCalls st2"
    using one [OF _ r2(2), of ctx3 req3] runs(3) by simp_all
  have r4: "res4 = (None, Some (StatusError \<lparr>st_code = 8, st_message = msg, st_details = []\<rparr>))"
    "valueN (world st4) = 3" "handlerCalls st4 = handlerCalls st3"
    using one [OF _ r3(2), of ctx4 req4] runs(4) by simp_all
  from r1 r2 r3 r4 show ?thesis by simp
qed

theorem conditional_counter_four_invocations_witness:
  "let s = echo_runState
             [HookAction_If
                [\<lparr>Left = ValueRef_CounterValue ''n'', Op = LESS_THAN,
                  Right = ValueRef_JsonValue ''3''\<rparr>]
                [HookAction_Counter ''n'' 1, HookAction_SetResponse (42 :: nat)]
                [HookAction_ReturnError \<lparr>Code = 8, Message = ''exhausted'', Details = []\<rparr>]];
       run1 = Run session_env s Background 1 session_init;
       run2 = Run session_env s Background 2 (snd run1);
       run3 = Run session_env s Background 3 (snd run2);
       run4 = Run session_env s Background 4 (snd run3)
   in fst run1 = (Some 42, None) \<and> session_Counter_Get ''n'' (world (snd run1)) = 1
    \<and> fst run2 = (Some 42, None) \<and> session_Counter_Get ''n'' (world (snd run2)) = 2
    \<and> fst run3 = (Some 42, None) \<and> session_Counter_Get ''n'' (world (snd run3)) = 3
    \<and> fst run4 = (None, Some (StatusError
          \<lparr>st_code = 8, st_message = ''exhausted'', st_details = []\<rparr>))
    \<and> session_Counter_Get ''n'' (world (snd run4)) = 3
    \<and> handlerCalls (snd run4) = 0"
proof -
  let ?s = "echo_runState
             [HookAction_If
                [\<lparr>Left = ValueRef_CounterValue ''n'', Op = LESS_THAN,
                  Right = ValueRef_JsonValue ''3''\<rparr>]
                [HookAction_Counter ''n'' 1, HookAction_SetResponse (42 :: nat)]
                [HookAction_ReturnError \<lparr>Code = 8, Message = ''exhausted'', Details = []\<rparr>]]"
  let ?run1 = "Run session_env ?s Background 1 session_init"
  let ?run2 = "Run session_env ?s Background 2 (snd ?run1)"
  let ?run3 = "Run session_env ?s Background 3 (snd ?run2)"
  let ?run4 = "Run session_env ?s Background 4 (snd ?run3)"
  have lock: "\<And>c h. c \<in> set [Background, Background, Background, Background] \<Longrightarrow>
      fst (acquireRunLock session_env c h) = None"
    by (simp add: session_env_def session_acquireRunLock_def)
  have frame1: "\<And>c h. c \<in> set [Background, Background, Background, Background] \<Longrightarrow>
      session_Counter_Get ''n'' (snd (acquireRunLock session_env c h)) = session_Counter_Get ''n'' h"
    by (simp add: session_env_def session_acquireRunLock_def)
  have frame2: "\<And>h. session_Counter_Get ''n'' (releaseRunLock session_env h) = session_Counter_Get ''n'' h"
    by (simp add: session_env_def)
  have frame3: "\<And>h. session_Counter_Get ''n'' (GetCounter session_env ''n'' h) = session_Counter_Get ''n'' h"
    by (simp add: session_env_def session_getCounter_def session_Counter_Get_def split: option.splits)
  have frame4: "\<And>h. session_Counter_Get ''n'' (getCounterLocked session_env ''n'' h) = session_Counter_Get ''n'' h"
    by (simp add: session_env_def session_getCounter_def session_Counter_Get_def split: option.splits)
  have get: "\<And>h. Counter_Get session_env ''n'' h = sint (session_Counter_Get ''n'' h)"
    by (simp add: session_env_def)
  have upd: "\<And>h d. session_Counter_Get ''n'' (Counter_Update session_env ''n'' d h) =
      session_Counter_Get ''n'' h + d"
    by (simp add: session_env_def session_Counter_Update_def session_Counter_Get_def)
  have json: "json_Unmarshal session_env ''3'' = Inr (Some 3)"
    by (simp add: session_env_def decimal_Unmarshal_def)
  have cmp: "\<exists>d. govalcmp_Compare session_env (Some (sint k)) (Some 3) = Inr d \<and> (d < 0) = (k < 3)"
    if "k \<le> 3" for k :: "64 word"
    using word_le_3_cases [OF that]
    by (auto simp: session_env_def numeric_Compare_def)
  have hook: "Actions (Hook ?s) =
             [HookAction_If
                [\<lparr>Left = ValueRef_CounterValue ''n'', Op = LESS_THAN,
                  Right = ValueRef_JsonValue ''3''\<rparr>]
                [HookAction_Counter ''n'' 1, HookAction_SetResponse (42 :: nat)]
                [HookAction_ReturnError \<lparr>Code = 8, Message = ''exhausted'', Details = []\<rparr>]]"
    by (simp add: echo_runState_def)
  have init: "session_Counter_Get ''n'' (world session_init) = 0"
    by (simp add: session_init_def session_Counter_Get_def)
  have r1: "?run1 = (fst ?run1, snd ?run1)" and r2: "?run2 = (fst ?run2, snd ?run2)"
    and r3: "?run3 = (fst ?run3, snd ?run3)" and r4: "?run4 = (fst ?run4, snd ?run4)"
    by simp_all
  have "handlerCalls session_init = 0"
    by (simp add: session_init_def handlerCalls_def)
  then show ?thesis
    using conditional_counter_four_invocations
      [of Background Background Background Background session_env "session_Counter_Get ''n''"
        sint "Some 3" ?s 42 "''exhausted''" session_init 1 "fst ?run1" "snd ?run1"
        2 "fst ?run2" "snd ?run2" 3 "fst ?run3" "snd ?run3" 4 "fst ?run4" "snd ?run4",
       OF lock frame1 frame2 frame3 frame4 get upd json cmp hook init r1 r2 r3 r4]
    unfolding Let_def by simp
qed

subsection \<open>JSON literals\<close>

text \<open>
  C7. Resolving a \<^verbatim>\<open>JsonValue\<close> reference decodes its text once, into the value
  the decoder gives (one decoder call in the trace, the session untouched, at every
  evaluation). When the decoder fails on a literal, the evaluation of a condition with
  that literal fails: it does not evaluate to false, it returns the decode error, for
  the literal on the left side, and on the right side when the left side resolves
  without error. The error then aborts the whole hook, wherever the reference stands in
  the action tree, at any depth of nested \<^verbatim>\<open>If\<close> actions: if the literal is
  decoded at all while an action list is interpreted, then the decode is the last call
  of the interpretation and the list returns a nil response and the decode error; and
  if it is decoded during an invocation of \<^verbatim>\<open>Run\<close>, then \<^verbatim>\<open>Run\<close>
  returns a nil response and the decode error, the decode is followed by the release of
  the run lock and nothing else, and the handler is not called.
\<close>

theorem json_decode_error_aborts_hook:
  assumes dec: "json_Unmarshal env lit = Inl e"
  shows "(\<forall>t st'. resolveValueRef env ctx req (ValueRef_JsonValue t) st' =
           ((case json_Unmarshal env t of
               Inl err \<Rightarrow> (None, Some err) | Inr val \<Rightarrow> (val, None)),
            \<lparr>world = world st', trace = trace st' @ [Ev_json_Unmarshal t]\<rparr>))
       \<and> (\<forall>c st3. Left c = ValueRef_JsonValue lit \<longrightarrow>
             checkCondition env ctx req c st3 =
               ((False, Some e),
                \<lparr>world = world st3, trace = trace st3 @ [Ev_json_Unmarshal lit]\<rparr>))
       \<and> (\<forall>c st3 lv st4.
             resolveValueRef env ctx req (Left c) st3 = ((lv, None), st4)
             \<and> Right c = ValueRef_JsonValue lit \<longrightarrow>
             checkCondition env ctx req c st3 =
               ((False, Some e),
                \<lparr>world = world st4, trace = trace st4 @ [Ev_json_Unmarshal lit]\<rparr>))
       \<and> (\<forall>actions st1.
             Ev_json_Unmarshal lit \<in>
               set (drop (length (trace st1)) (trace (snd (runActions env s ctx req actions st1))))
             \<longrightarrow> fst (runActions env s ctx req actions st1) = (None, Some e)
               \<and> last (trace (snd (runActions env s ctx req actions st1))) =
                   Ev_json_Unmarshal lit)
       \<and> (\<forall>st.
             Ev_json_Unmarshal lit \<in>
               set (drop (length (trace st)) (trace (snd (Run env s ctx req st))))
             \<longrightarrow> fst (Run env s ctx req st) = (None, Some e)
               \<and> handlerCalls (snd (Run env s ctx req st)) = handlerCalls st
               \<and> (\<exists>evs. trace (snd (Run env s ctx req st)) =
                     trace st @ Ev_acquireRunLock None # evs
                       @ [Ev_json_Unmarshal lit, Ev_releaseRunLock]))"
proof -
  have once: "resolveValueRef env ctx req (ValueRef_JsonValue t) st' =
           ((case json_Unmarshal env t of
               Inl err \<Rightarrow> (None, Some err) | Inr val \<Rightarrow> (val, None)),
            \<lparr>world = world st', trace = trace st' @ [Ev_json_Unmarshal t]\<rparr>)" for t st'
    by (simp add: resolveValueRef_JsonValue_once split: sum.splits)
  have left: "checkCondition env ctx req c st3 =
               ((False, Some e),
                \<lparr>world = world st3, trace = trace st3 @ [Ev_json_Unmarshal lit]\<rparr>)"
    if "Left c = ValueRef_JsonValue lit" for c st3
    using that by (simp add: checkCondition_def once dec)
  have right: "checkCondition env ctx req c st3 =
               ((False, Some e),
                \<lparr>world = world st4, trace = trace st4 @ [Ev_json_Unmarshal lit]\<rparr>)"
    if "resolveValueRef env ctx req (Left c) st3 = ((lv, None), st4)
          \<and> Right c = ValueRef_JsonValue lit" for c st3 lv st4
    using that by (simp add: checkCondition_def once dec)
  have acts: "fst (runActions env s ctx req actions st1) = (None, Some e)
               \<and> last (trace (snd (runActions env s ctx req actions st1))) =
                   Ev_json_Unmarshal lit"
    if ev: "Ev_json_Unmarshal lit \<in>
               set (drop (length (trace st1)) (trace (snd (runActions env s ctx req actions st1))))"
    for actions st1
  proof -
    obtain resp err st2 where r: "runActions env s ctx req actions st1 = ((resp, err), st2)"
      by (metis surj_pair)
    from decode_actions(3) [of env lit e s ctx req None actions st1] dec r
    obtain evs where "trace st2 = trace st1 @ evs"
      "Ev_json_Unmarshal lit \<in> set evs \<longrightarrow>
         resp = None \<and> err = Some e \<and> last evs = Ev_json_Unmarshal lit"
      unfolding runActions_def by blast
    with ev r show ?thesis by (auto simp: last_append)
  qed
  have run: "fst (Run env s ctx req st) = (None, Some e)
               \<and> handlerCalls (snd (Run env s ctx req st)) = handlerCalls st
               \<and> (\<exists>evs. trace (snd (Run env s ctx req st)) =
                     trace st @ Ev_acquireRunLock None # evs
                       @ [Ev_json_Unmarshal lit, Ev_releaseRunLock])"
    if ev: "Ev_json_Unmarshal lit \<in>
               set (drop (length (trace st)) (trace (snd (Run env s ctx req st))))"
    for st
  proof -
    obtain aerr st1 where a: "call_acquireRunLock env ctx st = (aerr, st1)"
      by (metis surj_pair)
    note t1 = trace_acquire [OF a]
    show ?thesis
    proof (cases aerr)
      case (Some x)
      with a have "Run env s ctx req st = ((None, Some x), st1)"
        by (simp add: Run_not_acquired)
      with ev t1 show ?thesis by simp
    next
      case None
      obtain resp err st2 where
        r: "runActions env s ctx req (Actions (Hook s)) st1 = ((resp, err), st2)"
        by (metis surj_pair)
      from decode_actions(3) [of env lit e s ctx req None "Actions (Hook s)" st1] dec r
      obtain evs where t2: "trace st2 = trace st1 @ evs"
        and p: "Ev_json_Unmarshal lit \<in> set evs \<longrightarrow>
           resp = None \<and> err = Some e \<and> last evs = Ev_json_Unmarshal lit"
        unfolding runActions_def by blast
      note R = Run_acquired [OF a [unfolded None] r]
      have "trace (snd (Run env s ctx req st)) =
              trace st2 @ Ev_releaseRunLock # (if resp = None \<and> err = None then [Ev_Handler] else [])"
        by (simp add: R call_Handler_def call_releaseRunLock_def effect_def split: prod.splits)
      with ev t1 t2 have inev: "Ev_json_Unmarshal lit \<in> set evs"
        by (auto split: if_splits)
      with p have res: "resp = None" "err = Some e" "last evs = Ev_json_Unmarshal lit"
        by simp_all
      from inev have "evs \<noteq> []" by auto
      then obtain pre where evs: "evs = pre @ [Ev_json_Unmarshal lit]"
        using res(3) by (metis append_butlast_last_id)
      have Rv: "Run env s ctx req st = ((None, Some e), call_releaseRunLock env st2)"
        using R res by simp
      have "handlerCalls st2 = handlerCalls st"
        using handlerCalls_runActions [OF r] handlerCalls_acquire [OF a] by simp
      then have hc: "handlerCalls (snd (Run env s ctx req st)) = handlerCalls st"
        by (simp add: Rv handlerCalls_release)
      have "trace (snd (Run env s ctx req st)) =
              trace st @ Ev_acquireRunLock None # pre
                @ [Ev_json_Unmarshal lit, Ev_releaseRunLock]"
        using t1 t2 None unfolding evs
        by (simp add: Rv call_releaseRunLock_def effect_def)
      with Rv hc show ?thesis by auto
    qed
  qed
  from once left right acts run show ?thesis by blast
qed

theorem json_decode_error_aborts_hook_witness:
  "json_Unmarshal session_env ''{'' = Inl (OtherError ''invalid character'')
   \<and> trace (snd (Run session_env
       (echo_runState
          [HookAction_Counter ''n'' 1,
           HookAction_If
             [\<lparr>Left = ValueRef_CounterValue ''n'', Op = EQUAL, Right = ValueRef_JsonValue ''1''\<rparr>]
             [HookAction_If
                [\<lparr>Left = ValueRef_CounterValue ''n'', Op = EQUAL,
                  Right = ValueRef_JsonValue ''{''\<rparr>]
                [HookAction_SetResponse 1] []]
             [],
           HookAction_SetResponse 2])
       Background (7 :: nat) session_init)) =
     [Ev_acquireRunLock None, Ev_getCounterLocked ''n'', Ev_Counter_Update ''n'' 1,
      Ev_GetCounter ''n'', Ev_Counter_Get ''n'', Ev_json_Unmarshal ''1'',
      Ev_GetCounter ''n'', Ev_Counter_Get ''n'', Ev_json_Unmarshal ''{'',
      Ev_releaseRunLock]
   \<and> fst (Run session_env
       (echo_runState
          [HookAction_Counter ''n'' 1,
           HookAction_If
             [\<lparr>Left = ValueRef_CounterValue ''n'', Op = EQUAL, Right = ValueRef_JsonValue ''1''\<rparr>]
             [HookAction_If
                [\<lparr>Left = ValueRef_CounterValue ''n'', Op = EQUAL,
                  Right = ValueRef_JsonValue ''{''\<rparr>]
                [HookAction_SetResponse 1] []]
             [],
           HookAction_SetResponse 2])
       Background (7 :: nat) session_init) = (None, Some (OtherError ''invalid character''))
   \<and> handlerCalls (snd (Run session_env
       (echo_runState
          [HookAction_Counter ''n'' 1,
           HookAction_If
             [\<lparr>Left = ValueRef_CounterValue ''n'', Op = EQUAL, Right = ValueRef_JsonValue ''1''\<rparr>]
             [HookAction_If
                [\<lparr>Left = ValueRef_CounterValue ''n'', Op = EQUAL,
                  Right = ValueRef_JsonValue ''{''\<rparr>]
                [HookAction_SetResponse 1] []]
             [],
           HookAction_SetResponse 2])
       Background (7 :: nat) session_init)) = 0"
proof -
  let ?s = "echo_runState
          [HookAction_Counter ''n'' 1,
           HookAction_If
             [\<lparr>Left = ValueRef_CounterValue ''n'', Op = EQUAL, Right = ValueRef_JsonValue ''1''\<rparr>]
             [HookAction_If
                [\<lparr>Left = ValueRef_CounterValue ''n'', Op = EQUAL,
                  Right = ValueRef_JsonValue ''{''\<rparr>]
                [HookAction_SetResponse 1] []]
             [],
           HookAction_SetResponse 2] :: (session, Context, nat, nat, string) runState"
  have dec: "json_Unmarshal session_env ''{'' = Inl (OtherError ''invalid character'')"
    by (simp add: session_eval)
  have tr: "trace (snd (Run session_env ?s Background (7 :: nat) session_init)) =
     [Ev_acquireRunLock None, Ev_getCounterLocked ''n'', Ev_Counter_Update ''n'' 1,
      Ev_GetCounter ''n'', Ev_Counter_Get ''n'', Ev_json_Unmarshal ''1'',
      Ev_GetCounter ''n'', Ev_Counter_Get ''n'', Ev_json_Unmarshal ''{'',
      Ev_releaseRunLock]"
    by (simp add: session_eval run_eval)
  have ev: "Ev_json_Unmarshal ''{'' \<in>
      set (drop (length (trace session_init))
             (trace (snd (Run session_env ?s Background (7 :: nat) session_init))))"
    unfolding tr by (simp add: session_init_def)
  have hc0: "handlerCalls session_init = 0"
    by (simp add: session_init_def handlerCalls_def)
  note all = json_decode_error_aborts_hook [OF dec, of Background "7 :: nat" ?s,
      THEN conjunct2, THEN conjunct2, THEN conjunct2, THEN conjunct2, rule_format, OF ev]
  show ?thesis
    using dec tr all hc0 by simp
qed

subsection \<open>Cancellation while acquiring the run lock\<close>

text \<open>
  C8. If acquiring the run lock fails (the context is cancelled while \<^verbatim>\<open>Run\<close>
  waits for it), \<^verbatim>\<open>Run\<close> returns that error with a nil response. The only call it
  makes is the failed acquisition: no action of the hook is executed, the handler is not
  called, and the session is the one the acquisition itself left.
\<close>

theorem Run_cancelled_while_acquiring:
  assumes "acquireRunLock env ctx (world st) = (Some err, h)"
  shows "Run env s ctx req st =
           ((None, Some err), \<lparr>world = h, trace = trace st @ [Ev_acquireRunLock (Some err)]\<rparr>)
       \<and> handlerCalls (snd (Run env s ctx req st)) = handlerCalls st"
  using assms by (simp add: Run_def call_acquireRunLock_def handlerCalls_def)

theorem Run_cancelled_while_acquiring_witness:
  "acquireRunLock session_env CancelledBefore (world session_init) =
     (Some ctxErr, world session_init)
   \<and> Run session_env (echo_runState [HookAction_Counter ''calls'' 1]) CancelledBefore (7 :: nat)
       session_init =
     ((None, Some ctxErr),
      \<lparr>world = world session_init, trace = [Ev_acquireRunLock (Some ctxErr)]\<rparr>)
   \<and> handlerCalls (snd (Run session_env (echo_runState [HookAction_Counter ''calls'' 1])
         CancelledBefore (7 :: nat) session_init)) = 0"
proof -
  have acq: "acquireRunLock session_env CancelledBefore (world session_init) =
     (Some ctxErr, world session_init)"
    by (simp add: session_env_def session_acquireRunLock_def)
  have "trace session_init = []" "handlerCalls session_init = 0"
    by (simp_all add: session_init_def handlerCalls_def)
  then show ?thesis
    using acq Run_cancelled_while_acquiring [OF acq,
        of "echo_runState [HookAction_Counter ''calls'' 1]" 7]
    by simp
qed

subsection \<open>Releasing the run lock\<close>



end
